theory Spec2Isabelle
  imports Main
begin

section \<open>Strings and the placeholder pattern\<close>

text \<open>
  JavaScript strings are modelled as \<^typ>\<open>string\<close>: a list of code units below 256.
  The character classes below are the ones the source's regular expressions and
  \<^verbatim>\<open>String.prototype.trim\<close> use, restricted to that range.
\<close>

definition isNameChar :: "char \<Rightarrow> bool" where
  \<comment> \<open>the class \<^verbatim>\<open>[a-zA-Z0-9_]\<close>\<close>
  "isNameChar c =
     (c \<in> set ''abcdefghijklmnopqrstuvwxyzABCDEFGHIJKLMNOPQRSTUVWXYZ0123456789_'')"

definition isWhiteSpace :: "char \<Rightarrow> bool" where
  \<comment> \<open>what \<^verbatim>\<open>trim()\<close> strips: TAB, LF, VT, FF, CR, SPACE and NBSP\<close>
  "isWhiteSpace c = (of_char c \<in> set [9, 10, 11, 12, 13, 32, 160 :: nat])"

definition trim :: "string \<Rightarrow> string" where
  "trim s = rev (dropWhile isWhiteSpace (rev (dropWhile isWhiteSpace s)))"

fun split :: "char \<Rightarrow> string \<Rightarrow> string list" where
  \<comment> \<open>\<^verbatim>\<open>s.split(sep)\<close> for a one-character separator; the result is never empty, so the
      last case is never taken\<close>
  "split sep [] = [[]]"
| "split sep (c # cs) =
     (case split sep cs of
        w # ws \<Rightarrow> if c = sep then [] # w # ws else (c # w) # ws
      | [] \<Rightarrow> [[c]])"

definition isOpen :: "char \<Rightarrow> bool" where
  "isOpen c = (c = CHR ''{'')"

definition isClose :: "char \<Rightarrow> bool" where
  "isClose c = (c = CHR ''}'')"

text \<open>
  \<^verbatim>\<open>const varRegex = /\{+([a-zA-Z0-9_]+)\}+/g\<close>.
  \<open>varRegex_matchAt s\<close> is the match of the pattern anchored at the start of \<open>s\<close>: the
  captured name and the text after the match. The three classes are pairwise disjoint,
  so backtracking out of a greedy run can never make the next group match: a match at a
  position takes the whole run of opening braces, the whole run of name characters and
  the whole run of closing braces.
\<close>

definition varRegex_matchAt :: "string \<Rightarrow> (string \<times> string) option" where
  "varRegex_matchAt s =
     (let r1 = dropWhile isOpen s;
          nm = takeWhile isNameChar r1;
          r2 = dropWhile isNameChar r1;
          r3 = dropWhile isClose r2
      in if takeWhile isOpen s \<noteq> [] \<and> nm \<noteq> [] \<and> takeWhile isClose r2 \<noteq> []
         then Some (nm, r3) else None)"

text \<open>
  \<^verbatim>\<open>varRegex.exec(str)\<close> on the text from \<^verbatim>\<open>lastIndex\<close> on: the leftmost match. The
  result is the text skipped before the match (\<^verbatim>\<open>str.slice(lastIndex, match.index)\<close>),
  the captured name (\<^verbatim>\<open>match[1]\<close>) and the text from the new \<^verbatim>\<open>lastIndex\<close> on.
\<close>

fun varRegex_exec :: "string \<Rightarrow> (string \<times> string \<times> string) option" where
  "varRegex_exec [] = None"
| "varRegex_exec (c # cs) =
     (case varRegex_matchAt (c # cs) of
        Some (nm, r) \<Rightarrow> Some ([], nm, r)
      | None \<Rightarrow>
          (case varRegex_exec cs of
             None \<Rightarrow> None
           | Some (p, nm, r) \<Rightarrow> Some (c # p, nm, r)))"

lemma varRegex_matchAt_shorter:
  "varRegex_matchAt s = Some (nm, r) \<Longrightarrow> length r < length s"
proof -
  assume m: "varRegex_matchAt s = Some (nm, r)"
  let ?r1 = "dropWhile isOpen s"
  let ?r2 = "dropWhile isNameChar ?r1"
  from m have opens: "takeWhile isOpen s \<noteq> []" and r: "r = dropWhile isClose ?r2"
    by (auto simp: varRegex_matchAt_def Let_def split: if_splits)
  have "length s = length (takeWhile isOpen s) + length ?r1"
    by (metis length_append takeWhile_dropWhile_id)
  with opens have "length ?r1 < length s" by simp
  moreover have "length r \<le> length ?r2" unfolding r by (rule length_dropWhile_le)
  moreover have "length ?r2 \<le> length ?r1" by (rule length_dropWhile_le)
  ultimately show ?thesis by linarith
qed

lemma varRegex_exec_shorter:
  "varRegex_exec s = Some (p, nm, r) \<Longrightarrow> length r < length s"
proof (induction s arbitrary: p)
  case Nil
  then show ?case by simp
next
  case (Cons c cs)
  show ?case
  proof (cases "varRegex_matchAt (c # cs)")
    case (Some a)
    with Cons.prems show ?thesis
      by (cases a) (auto dest: varRegex_matchAt_shorter)
  next
    case None
    with Cons.prems obtain p' where "varRegex_exec cs = Some (p', nm, r)"
      by (auto split: option.splits)
    from Cons.IH [OF this] show ?thesis by simp
  qed
qed

section \<open>Segments and the tokenizer\<close>

text \<open>
  What a JavaScript object used as a dictionary returns for \<^verbatim>\<open>obj[key]\<close>: the string
  stored under an own property, a member inherited from \<^verbatim>\<open>Object.prototype\<close> (an object
  or a function, never a string), or \<^verbatim>\<open>undefined\<close>.
\<close>

datatype jsval = JsString string | JsInherited string | JsUndefined

text \<open>
  An element of a \<^verbatim>\<open>text\<close> or \<^verbatim>\<open>content\<close> array: a literal string or an object
  \<^verbatim>\<open>{ variableID: ... }\<close>.
\<close>

datatype part = Text string | VarRef jsval

text \<open>
  The tokenizing loop of \<^verbatim>\<open>addApiTool\<close> (the same loop builds \<^verbatim>\<open>urlParts\<close>,
  \<^verbatim>\<open>valueParts\<close> and \<^verbatim>\<open>bodyParts\<close>):
  \<^verbatim>\<open>
  while ((match = varRegex.exec(url))) {
    if (match.index > lastIndex) urlParts.push(url.slice(lastIndex, match.index))
    urlParts.push({ variableID: variableIDs[match[1]] })
    lastIndex = match.index + match[0].length
  }
  if (lastIndex < url.length) urlParts.push(url.slice(lastIndex))
  \<close>
  The argument \<open>s\<close> is the text from \<^verbatim>\<open>lastIndex\<close> on; \<open>lk\<close> is the lookup
  \<^verbatim>\<open>variableIDs[...]\<close>.
\<close>

function tokenize :: "(string \<Rightarrow> jsval) \<Rightarrow> string \<Rightarrow> part list" where
  "tokenize lk s =
     (case varRegex_exec s of
        None \<Rightarrow> (if s \<noteq> [] then [Text s] else [])
      | Some (p, nm, r) \<Rightarrow>
          (if p \<noteq> [] then [Text p] else []) @ VarRef (lk nm) # tokenize lk r)"
  by pat_completeness auto
termination
  by (relation "measure (\<lambda>(lk, s). length s)") (auto dest: varRegex_exec_shorter)

declare tokenize.simps [simp del]

text \<open>
  The scanning loops that only collect \<^verbatim>\<open>match[1]\<close>
  (\<^verbatim>\<open>while ((match = varRegex.exec(str))) foundVars.add(match[1])\<close>, and
  \<^verbatim>\<open>for (const m of part.matchAll(...)) referencedVars.add(m[1])\<close>): the captured names in
  the order of the matches.
\<close>

function matchedNames :: "string \<Rightarrow> string list" where
  "matchedNames s =
     (case varRegex_exec s of
        None \<Rightarrow> []
      | Some (p, nm, r) \<Rightarrow> nm # matchedNames r)"
  by pat_completeness auto
termination
  by (relation "measure length") (auto dest: varRegex_exec_shorter)

declare matchedNames.simps [simp del]

text \<open>\<^verbatim>\<open>str.replace(varRegex, '{var}')\<close>: every match replaced by the text \<^verbatim>\<open>{var}\<close>.\<close>

function replaceVars :: "string \<Rightarrow> string" where
  "replaceVars s =
     (case varRegex_exec s of
        None \<Rightarrow> s
      | Some (p, nm, r) \<Rightarrow> p @ ''{var}'' @ replaceVars r)"
  by pat_completeness auto
termination
  by (relation "measure length") (auto dest: varRegex_exec_shorter)

declare replaceVars.simps [simp del]

section \<open>JavaScript helpers\<close>

fun join :: "string \<Rightarrow> string list \<Rightarrow> string" where
  \<comment> \<open>\<^verbatim>\<open>arr.join(sep)\<close> on an array of strings\<close>
  "join sep [] = []"
| "join sep [x] = x"
| "join sep (x # y # ys) = x @ sep @ join sep (y # ys)"

definition lowerChar :: "char \<Rightarrow> char" where
  "lowerChar c =
     (let n = of_char c :: nat
      in if (65 \<le> n \<and> n \<le> 90) \<or> (192 \<le> n \<and> n \<le> 222 \<and> n \<noteq> 215)
         then char_of (n + 32) else c)"

definition toLowerCase :: "string \<Rightarrow> string" where
  "toLowerCase s = map lowerChar s"

text \<open>
  A plain object used as a dictionary from names to strings (\<^verbatim>\<open>variableIDs\<close>,
  \<^verbatim>\<open>variableDescriptions\<close>, \<^verbatim>\<open>varNameToId\<close>): its own properties, the most recent first.
  Reading a key that is not an own property falls through to \<^verbatim>\<open>Object.prototype\<close>.
  The assignment \<^verbatim>\<open>obj[key] = value\<close> creates or overwrites an own property, except for
  the key \<^verbatim>\<open>__proto__\<close>: that one is an accessor of \<^verbatim>\<open>Object.prototype\<close> whose setter
  ignores a value that is neither an object nor null, so assigning a string to it leaves
  the object as it was. \<^verbatim>\<open>Object.fromEntries\<close> defines own properties for every key, a
  later entry replacing an earlier one.
\<close>

type_synonym jsobj = "(string \<times> string) list"

definition objectPrototypeKeys :: "string list" where
  "objectPrototypeKeys =
     [''constructor'', ''__defineGetter__'', ''__defineSetter__'', ''hasOwnProperty'',
      ''__lookupGetter__'', ''__lookupSetter__'', ''isPrototypeOf'',
      ''propertyIsEnumerable'', ''toString'', ''valueOf'', ''__proto__'',
      ''toLocaleString'']"

definition hasOwnProperty :: "jsobj \<Rightarrow> string \<Rightarrow> bool" where
  "hasOwnProperty obj k = (map_of obj k \<noteq> None)"

definition jsSet :: "string \<Rightarrow> string \<Rightarrow> jsobj \<Rightarrow> jsobj" where
  "jsSet k v obj = (if k = ''__proto__'' then obj else (k, v) # obj)"

definition jsGet :: "jsobj \<Rightarrow> string \<Rightarrow> jsval" where
  "jsGet obj k =
     (case map_of obj k of
        Some v \<Rightarrow> JsString v
      | None \<Rightarrow> if k \<in> set objectPrototypeKeys then JsInherited k else JsUndefined)"

definition fromEntries :: "(string \<times> string) list \<Rightarrow> jsobj" where
  "fromEntries es = rev es"

fun truthy :: "jsval \<Rightarrow> bool" where
  "truthy (JsString s) = (s \<noteq> [])"
| "truthy (JsInherited k) = True"
| "truthy JsUndefined = False"

definition orEmpty :: "jsval \<Rightarrow> jsval" where
  \<comment> \<open>\<^verbatim>\<open>v || ''\<close>\<close>
  "orEmpty v = (if truthy v then v else JsString [])"

text \<open>A \<^verbatim>\<open>Set\<close> of strings in insertion order, and \<^verbatim>\<open>set.add(x)\<close>.\<close>

definition setAdd :: "string list \<Rightarrow> string \<Rightarrow> string list" where
  "setAdd xs x = (if x \<in> set xs then xs else xs @ [x])"

definition addMatches :: "string list \<Rightarrow> string \<Rightarrow> string list" where
  \<comment> \<open>a scanning loop over one string, adding every \<^verbatim>\<open>match[1]\<close> to the set\<close>
  "addMatches vars s = foldl setAdd vars (matchedNames s)"

section \<open>The document\<close>

text \<open>
  The records keep the fields the operations below read or compute. Timestamps
  (\<^verbatim>\<open>createdAt\<close>, \<^verbatim>\<open>updatedAt\<close>) and the fields that are only stamped or copied and
  never read (\<^verbatim>\<open>createdByID\<close>, \<^verbatim>\<open>updatedByID\<close>, \<^verbatim>\<open>folderID\<close>, \<^verbatim>\<open>image\<close>, and a link's
  \<^verbatim>\<open>description\<close>, \<^verbatim>\<open>inputVariables\<close>, \<^verbatim>\<open>captureResponse\<close>) are left out. An array of
  \<^verbatim>\<open>{ text: [...] }\<close> objects (a URL, a parameter's value) is the list of its \<^verbatim>\<open>text\<close>
  arrays. A collection that is missing from the file is the empty list: both operations
  create it empty before anything else.
\<close>

record apiToolInputVariable =
  var_id :: string
  var_name :: string
  var_apiToolID :: string
  var_description :: jsval

record keyValue =
  kv_id :: string
  kv_key :: string
  kv_value :: "part list list"

record body =
  body_type :: string
  body_content :: "part list"
  body_contentType :: string

record apiTool =
  tool_id :: string
  tool_name :: "string option"
  tool_description :: string
  tool_url :: "part list list"
  tool_httpMethod :: string
  tool_queryParameters :: "keyValue list"
  tool_headers :: "keyValue list"
  tool_body :: "body option"

record agentAPITool =
  link_id :: string
  link_agentID :: string
  link_apiToolID :: string

record document =
  apiTools :: "apiTool list"
  apiToolInputVariables :: "apiToolInputVariable list"
  agentAPITools :: "agentAPITool list"
  agents :: "string list"  \<comment> \<open>\<^verbatim>\<open>vfData.agents[i].id\<close>, empty for an agent without an id\<close>

datatype error =
  DuplicateTool  \<comment> \<open>"An API tool with this name or URL already exists. Aborting."\<close>
| InvalidAIToolJSON  \<comment> \<open>\<^verbatim>\<open>throw new Error('Invalid AI tool JSON')\<close>\<close>
| TypeError  \<comment> \<open>calling a method a value does not have\<close>

section \<open>The operator path: \<^verbatim>\<open>addApiTool\<close>\<close>

text \<open>
  The answers to the prompts. \<^verbatim>\<open>httpMethod\<close> is a list prompt with the choices
  \<^verbatim>\<open>['get', 'post', 'put', 'delete', 'patch']\<close>; \<^verbatim>\<open>wantsBody\<close> and \<^verbatim>\<open>bodyInput\<close> are only
  asked for, and only read, when the method is post, put or patch.
\<close>

datatype methodChoice = Get | Post | Put | Delete | Patch

fun methodString :: "methodChoice \<Rightarrow> string" where
  "methodString Get = ''get''"
| "methodString Post = ''post''"
| "methodString Put = ''put''"
| "methodString Delete = ''delete''"
| "methodString Patch = ''patch''"

record answers =
  ans_name :: string
  ans_description :: string
  ans_url :: string
  ans_httpMethod :: methodChoice
  ans_queryParamsInput :: string
  ans_headersInput :: string
  ans_wantsBody :: bool
  ans_bodyInput :: string

definition bodyTemplateOf :: "answers \<Rightarrow> string" where
  "bodyTemplateOf a =
     (if toLowerCase (methodString (ans_httpMethod a)) \<in> set [''post'', ''put'', ''patch'']
      then (if ans_wantsBody a then ans_bodyInput a else [])
      else [])"

definition parsePair :: "string \<Rightarrow> string \<times> string" where
  \<comment> \<open>\<^verbatim>\<open>const [key, ...rest] = pair.split('='); { key: key.trim(), value: rest.join('=').trim() }\<close>\<close>
  "parsePair pair =
     (case split CHR ''='' pair of
        [] \<Rightarrow> ([], [])
      | key # rest \<Rightarrow> (trim key, trim (join ''='' rest)))"

definition queryParamPairsOf :: "string \<Rightarrow> (string \<times> string) list" where
  "queryParamPairsOf queryParamsInput =
     filter (\<lambda>qp. fst qp \<noteq> [])
       (map parsePair (filter (\<lambda>s. s \<noteq> []) (map trim (split CHR '','' queryParamsInput))))"

definition isBlank :: "string \<Rightarrow> bool" where
  \<comment> \<open>the negation of \<^verbatim>\<open>s && s.trim()\<close>\<close>
  "isBlank s = (s = [] \<or> trim s = [])"

definition allVarNamesOf :: "string \<Rightarrow> (string \<times> string) list \<Rightarrow> string \<Rightarrow> string list" where
  "allVarNamesOf url queryParamPairs bodyTemplate =
     (let foundVars1 = addMatches [] url;
          foundVars2 = foldl (\<lambda>vars qp. addMatches vars (snd qp)) foundVars1 queryParamPairs
      in if isBlank bodyTemplate then foundVars2 else addMatches foundVars2 bodyTemplate)"

definition variableDescriptionsOf :: "(string \<Rightarrow> string) \<Rightarrow> string list \<Rightarrow> jsobj" where
  \<comment> \<open>one prompt per name: \<^verbatim>\<open>variableDescriptions[varName] = varDesc\<close>\<close>
  "variableDescriptionsOf varDesc allVarNames =
     foldl (\<lambda>obj varName. jsSet varName (varDesc varName) obj) [] allVarNames"

fun partToString :: "part \<Rightarrow> string" where
  \<comment> \<open>how \<^verbatim>\<open>Array.prototype.join\<close> writes an element\<close>
  "partToString (Text s) = s"
| "partToString (VarRef v) = ''[object Object]''"

definition urlText :: "apiTool \<Rightarrow> string" where
  \<comment> \<open>\<^verbatim>\<open>t.url && t.url[0] && t.url[0].text && t.url[0].text.join ? t.url[0].text.join('') : ''\<close>\<close>
  "urlText t = (case tool_url t of [] \<Rightarrow> [] | ps # rest \<Rightarrow> concat (map partToString ps))"

definition isDuplicate :: "string \<Rightarrow> string \<Rightarrow> apiTool \<Rightarrow> bool" where
  "isDuplicate name urlStripped t = (tool_name t = Some name \<or> urlText t = urlStripped)"

text \<open>
  The loop that creates the variables. The state is the number of identifiers drawn so
  far, the variables pushed and \<^verbatim>\<open>variableIDs\<close>. \<open>gen\<close> is the sequence of identifiers
  that the calls of \<^verbatim>\<open>generateMongoId()\<close> return.
\<close>

fun createVariables ::
  "(nat \<Rightarrow> string) \<Rightarrow> string \<Rightarrow> jsobj \<Rightarrow> string list \<Rightarrow>
   nat \<times> apiToolInputVariable list \<times> jsobj \<Rightarrow> nat \<times> apiToolInputVariable list \<times> jsobj" where
  "createVariables gen apiToolID variableDescriptions [] st = st"
| "createVariables gen apiToolID variableDescriptions (varName # rest) (n, vars, variableIDs) =
     (if hasOwnProperty variableIDs varName
      then createVariables gen apiToolID variableDescriptions rest (n, vars, variableIDs)
      else createVariables gen apiToolID variableDescriptions rest
        (Suc n,
         vars @ [\<lparr>var_id = gen n, var_name = varName, var_apiToolID = apiToolID,
                  var_description = orEmpty (jsGet variableDescriptions varName)\<rparr>],
         jsSet varName (gen n) variableIDs))"

fun buildQueryParameters ::
  "(nat \<Rightarrow> string) \<Rightarrow> jsobj \<Rightarrow> nat \<Rightarrow> (string \<times> string) list \<Rightarrow> keyValue list \<times> nat" where
  "buildQueryParameters gen variableIDs n [] = ([], n)"
| "buildQueryParameters gen variableIDs n (qp # rest) =
     (if fst qp \<noteq> []
      then (let (qs, n') = buildQueryParameters gen variableIDs (Suc n) rest
            in (\<lparr>kv_id = gen n, kv_key = fst qp,
                 kv_value = [tokenize (jsGet variableIDs) (snd qp)]\<rparr> # qs, n'))
      else buildQueryParameters gen variableIDs n rest)"

definition parseHeader :: "string \<Rightarrow> string \<Rightarrow> keyValue" where
  \<comment> \<open>\<^verbatim>\<open>const [key, ...rest] = h.split(':'); const value = rest.join(':').trim()\<close>\<close>
  "parseHeader newId h =
     (case split CHR '':'' h of
        [] \<Rightarrow> \<lparr>kv_id = newId, kv_key = [], kv_value = [[Text []]]\<rparr>
      | key # rest \<Rightarrow>
          \<lparr>kv_id = newId, kv_key = trim key, kv_value = [[Text (trim (join '':'' rest))]]\<rparr>)"

fun mapWithIds :: "(nat \<Rightarrow> string) \<Rightarrow> nat \<Rightarrow> (string \<Rightarrow> 'a \<Rightarrow> 'b) \<Rightarrow> 'a list \<Rightarrow> 'b list" where
  \<comment> \<open>\<^verbatim>\<open>xs.map((x) => f(generateMongoId(), x))\<close>, the identifiers drawn from \<open>n\<close> on\<close>
  "mapWithIds gen n f [] = []"
| "mapWithIds gen n f (x # xs) = f (gen n) x # mapWithIds gen (Suc n) f xs"

definition buildHeaders :: "(nat \<Rightarrow> string) \<Rightarrow> nat \<Rightarrow> string \<Rightarrow> keyValue list" where
  "buildHeaders gen n headersInput =
     (if isBlank headersInput then []
      else mapWithIds gen n parseHeader (split CHR '','' headersInput))"

definition keepsBodyPart :: "part \<Rightarrow> bool" where
  \<comment> \<open>\<^verbatim>\<open>typeof part !== 'object' || part.variableID || typeof part === 'string'\<close>\<close>
  "keepsBodyPart p = (case p of Text s \<Rightarrow> True | VarRef v \<Rightarrow> truthy v)"

definition buildBody :: "jsobj \<Rightarrow> string \<Rightarrow> body option" where
  "buildBody variableIDs bodyTemplate =
     (if isBlank bodyTemplate then None
      else Some \<lparr>body_type = ''raw-input'',
                 body_content = filter keepsBodyPart (tokenize (jsGet variableIDs) bodyTemplate),
                 body_contentType = ''json''\<rparr>)"

text \<open>
  \<^verbatim>\<open>addApiTool\<close> from the answers on, in three steps. \<open>gen\<close> is the sequence of
  generated identifiers (\<open>gen 0\<close> is \<^verbatim>\<open>apiToolID\<close>), \<open>varDesc\<close> the operator's answer to
  the description prompt of each variable name, \<open>selectedAgentId\<close> the agent chosen before
  the prompts and \<open>data\<close> the document as loaded.

  \<open>variableRegistry\<close>: the names found in the URL, the query parameter values and the
  body template, and the variables created for them (the number of identifiers drawn,
  the variables pushed and \<^verbatim>\<open>variableIDs\<close>).
\<close>

definition variableRegistry ::
  "(nat \<Rightarrow> string) \<Rightarrow> (string \<Rightarrow> string) \<Rightarrow> answers \<Rightarrow>
   nat \<times> apiToolInputVariable list \<times> jsobj" where
  "variableRegistry gen varDesc a =
     (let allVarNames = allVarNamesOf (ans_url a) (queryParamPairsOf (ans_queryParamsInput a))
                          (bodyTemplateOf a)
      in createVariables gen (gen 0) (variableDescriptionsOf varDesc allVarNames) allVarNames
           (1, [], []))"

text \<open>
  \<open>assembleTool\<close>: the tool pushed to \<^verbatim>\<open>data.apiTools\<close>, and the number of identifiers
  drawn after it.
\<close>

definition assembleTool :: "(nat \<Rightarrow> string) \<Rightarrow> answers \<Rightarrow> nat \<Rightarrow> jsobj \<Rightarrow> apiTool \<times> nat" where
  "assembleTool gen a n1 variableIDs =
     (let (queryParameters, n2) =
            buildQueryParameters gen variableIDs n1 (queryParamPairsOf (ans_queryParamsInput a));
          headers = buildHeaders gen n2 (ans_headersInput a)
      in (\<lparr>tool_id = gen 0, tool_name = Some (ans_name a),
           tool_description = ans_description a,
           tool_url = [tokenize (jsGet variableIDs) (ans_url a)],
           tool_httpMethod = methodString (ans_httpMethod a),
           tool_queryParameters = queryParameters,
           tool_headers = headers,
           tool_body = buildBody variableIDs (bodyTemplateOf a)\<rparr>,
          n2 + length headers))"

text \<open>
  The whole operation. \<open>Inl DuplicateTool\<close>: the function returns before \<^verbatim>\<open>saveVfFile\<close>,
  the document on file stays as it is. \<open>Inr d\<close>: the document \<open>d\<close> is saved.
\<close>

definition addApiTool ::
  "(nat \<Rightarrow> string) \<Rightarrow> (string \<Rightarrow> string) \<Rightarrow> string \<Rightarrow> answers \<Rightarrow> document \<Rightarrow> error + document" where
  "addApiTool gen varDesc selectedAgentId a data =
     (if list_ex (isDuplicate (ans_name a) (replaceVars (ans_url a))) (apiTools data)
      then Inl DuplicateTool
      else
        (let (n1, newVars, variableIDs) = variableRegistry gen varDesc a;
             (tool, n3) = assembleTool gen a n1 variableIDs;
             link = \<lparr>link_id = gen n3, link_agentID = selectedAgentId,
                      link_apiToolID = gen 0\<rparr>
         in Inr (data\<lparr>apiToolInputVariables := apiToolInputVariables data @ newVars,
                       apiTools := apiTools data @ [tool],
                       agentAPITools := agentAPITools data @ [link]\<rparr>)))"

section \<open>The generator path: \<^verbatim>\<open>addApiToolFromJson\<close>\<close>

text \<open>
  The generator's JSON, typed by the shapes the function distinguishes. A URL is absent,
  a string, an array of \<^verbatim>\<open>{ text: [...] }\<close> objects or an array of strings. A declared
  variable, a query parameter and the tool itself are objects whose fields may be
  missing. The tool is \<^verbatim>\<open>aiJson.apiTool || aiJson.tool || aiJson\<close>: \<open>p_self\<close> holds the tool
  fields of the top-level object itself. A top-level array passes the entry check
  (\<^verbatim>\<open>typeof [] === 'object'\<close>) and has none of the fields the function reads.
\<close>

datatype urlIn =
  UrlAbsent | UrlString string | UrlObjects "part list list" | UrlStrings "string list"

record varIn =
  vi_id :: "string option"
  vi_name :: "string option"
  vi_description :: "string option"

datatype qpValueIn = QvAbsent | QvString string | QvArray "part list list"

record qpIn =
  qi_key :: "string option"
  qi_name :: "string option"
  qi_value :: qpValueIn

record toolIn =
  ti_name :: "string option"
  ti_description :: "string option"
  ti_url :: urlIn
  ti_httpMethod :: "string option"
  ti_method :: "string option"
  ti_queryParameters :: "qpIn list option"
  ti_headers :: "keyValue list option"
  ti_body :: "body option"

record payload =
  p_apiTool :: "toolIn option"
  p_tool :: "toolIn option"
  p_self :: toolIn
  p_apiToolInputVariables :: "varIn list option"
  p_variables :: "varIn list option"

datatype aiJson =
  JNull | JUndefined | JBoolean bool | JNumber int | JString string | JArray
| JObject payload

definition emptyTool :: toolIn where
  "emptyTool =
     \<lparr>ti_name = None, ti_description = None, ti_url = UrlAbsent, ti_httpMethod = None,
      ti_method = None, ti_queryParameters = None, ti_headers = None, ti_body = None\<rparr>"

definition emptyPayload :: payload where
  "emptyPayload =
     \<lparr>p_apiTool = None, p_tool = None, p_self = emptyTool,
      p_apiToolInputVariables = None, p_variables = None\<rparr>"

fun typeof :: "aiJson \<Rightarrow> string" where
  "typeof JNull = ''object''"
| "typeof JUndefined = ''undefined''"
| "typeof (JBoolean b) = ''boolean''"
| "typeof (JNumber n) = ''number''"
| "typeof (JString s) = ''string''"
| "typeof JArray = ''object''"
| "typeof (JObject p) = ''object''"

fun falsy :: "aiJson \<Rightarrow> bool" where
  \<comment> \<open>\<^verbatim>\<open>!aiJson\<close>\<close>
  "falsy JNull = True"
| "falsy JUndefined = True"
| "falsy (JBoolean b) = (\<not> b)"
| "falsy (JNumber n) = (n = 0)"
| "falsy (JString s) = (s = [])"
| "falsy JArray = False"
| "falsy (JObject p) = False"

definition orElse :: "string option \<Rightarrow> string \<Rightarrow> string" where
  \<comment> \<open>\<^verbatim>\<open>x || d\<close> for a string or missing \<open>x\<close>\<close>
  "orElse x d = (case x of None \<Rightarrow> d | Some s \<Rightarrow> if s = [] then d else s)"

function showNat :: "nat \<Rightarrow> string" where
  \<comment> \<open>a number written in a template literal\<close>
  "showNat n =
     (if n < 10 then [char_of (48 + n)]
      else showNat (n div 10) @ [char_of (48 + n mod 10)])"
  by pat_completeness auto
termination
  by (relation "measure id") auto

declare showNat.simps [simp del]

definition toolObjOf :: "payload \<Rightarrow> toolIn" where
  "toolObjOf p =
     (case p_apiTool p of
        Some t \<Rightarrow> t
      | None \<Rightarrow> (case p_tool p of Some t \<Rightarrow> t | None \<Rightarrow> p_self p))"

definition declaredOf :: "payload \<Rightarrow> varIn list" where
  \<comment> \<open>\<^verbatim>\<open>aiJson.apiToolInputVariables || aiJson.variables || []\<close>\<close>
  "declaredOf p =
     (case p_apiToolInputVariables p of
        Some vs \<Rightarrow> vs
      | None \<Rightarrow> (case p_variables p of Some vs \<Rightarrow> vs | None \<Rightarrow> []))"

definition hasId :: "jsval \<Rightarrow> varIn \<Rightarrow> bool" where
  \<comment> \<open>\<^verbatim>\<open>v.id === part.variableID\<close>\<close>
  "hasId variableID v = (case variableID of JsString s \<Rightarrow> vi_id v = Some s | _ \<Rightarrow> False)"

text \<open>
  One round of the loops over \<^verbatim>\<open>toolObj.url[0].text\<close> and \<^verbatim>\<open>toolObj.body.content\<close>.
  \<open>hasInputVars\<close> is the test \<^verbatim>\<open>aiJson.apiToolInputVariables\<close>; when it holds, the array
  searched is that one.
\<close>

fun addPartRefs :: "bool \<Rightarrow> varIn list \<Rightarrow> string list \<Rightarrow> part \<Rightarrow> string list" where
  "addPartRefs hasInputVars declared vars (VarRef variableID) =
     (if truthy variableID \<and> hasInputVars
      then (case find (hasId variableID) declared of
              None \<Rightarrow> vars
            | Some found \<Rightarrow>
                (case vi_name found of
                   None \<Rightarrow> vars
                 | Some nm \<Rightarrow> if nm = [] then vars else setAdd vars nm))
      else vars)"
| "addPartRefs hasInputVars declared vars (Text s) = addMatches vars s"

fun textOnly :: "part \<Rightarrow> string" where
  \<comment> \<open>\<^verbatim>\<open>typeof t === 'string' ? t : ''\<close>\<close>
  "textOnly (Text s) = s"
| "textOnly (VarRef v) = []"

definition urlStrOf :: "urlIn \<Rightarrow> string" where
  "urlStrOf url =
     (case url of
        UrlObjects (ps # rest) \<Rightarrow> concat (map textOnly ps)
      | UrlString s \<Rightarrow> s
      | _ \<Rightarrow> [])"

definition isQuestion :: "char \<Rightarrow> bool" where
  "isQuestion c = (c = CHR ''?'')"

definition pairsOf :: "string \<Rightarrow> string list" where
  \<comment> \<open>\<^verbatim>\<open>urlStr.slice(queryIndex + 1).split('&').map((s) => s.trim()).filter(Boolean)\<close>\<close>
  "pairsOf urlStr =
     filter (\<lambda>s. s \<noteq> [])
       (map trim (split CHR ''&'' (tl (dropWhile (\<lambda>c. \<not> isQuestion c) urlStr))))"

definition pairKey :: "string \<Rightarrow> string" where
  \<comment> \<open>\<^verbatim>\<open>const [key, value] = pair.split('=')\<close>\<close>
  "pairKey pair = (case split CHR ''='' pair of [] \<Rightarrow> [] | key # rest \<Rightarrow> key)"

definition pairValue :: "string \<Rightarrow> string" where
  \<comment> \<open>the second piece; a missing one (\<^verbatim>\<open>undefined\<close>) is only ever tested for truth, as
      the empty string is\<close>
  "pairValue pair = (case split CHR ''='' pair of key # v # rest \<Rightarrow> v | _ \<Rightarrow> [])"

definition wholeMatch :: "string \<Rightarrow> string option" where
  \<comment> \<open>\<^verbatim>\<open>value.match(/^\{+([a-zA-Z0-9_]+)\}+$/)\<close>\<close>
  "wholeMatch v =
     (case varRegex_matchAt v of
        None \<Rightarrow> None
      | Some (nm, r) \<Rightarrow> if r = [] then Some nm else None)"

definition addPairRef :: "string list \<Rightarrow> string \<Rightarrow> string list" where
  "addPairRef vars pair =
     (if pairKey pair = [] then vars
      else (case wholeMatch (pairValue pair) of None \<Rightarrow> vars | Some nm \<Rightarrow> setAdd vars nm))"

definition referencedVarsOf :: "payload \<Rightarrow> string list" where
  "referencedVarsOf p =
     (let toolObj = toolObjOf p;
          hasInputVars = (p_apiToolInputVariables p \<noteq> None);
          declared = declaredOf p;
          vars1 = (case ti_url toolObj of
                     UrlObjects (ps # rest) \<Rightarrow> foldl (addPartRefs hasInputVars declared) [] ps
                   | _ \<Rightarrow> []);
          urlStr = urlStrOf (ti_url toolObj);
          vars2 = (if list_ex isQuestion urlStr then foldl addPairRef vars1 (pairsOf urlStr)
                   else vars1)
      in case ti_body toolObj of
           None \<Rightarrow> vars2
         | Some b \<Rightarrow> foldl (addPartRefs hasInputVars declared) vars2 (body_content b))"

definition isReferenced :: "string list \<Rightarrow> varIn \<Rightarrow> bool" where
  \<comment> \<open>\<^verbatim>\<open>referencedVars.has(v.name)\<close>\<close>
  "isReferenced referencedVars v =
     (case vi_name v of None \<Rightarrow> False | Some nm \<Rightarrow> nm \<in> set referencedVars)"

fun newVariablesFrom ::
  "(nat \<Rightarrow> string) \<Rightarrow> string \<Rightarrow> nat \<Rightarrow> nat \<Rightarrow> varIn list \<Rightarrow> apiToolInputVariable list" where
  \<comment> \<open>\<^verbatim>\<open>variables.map((v, idx) => ...)\<close>, the identifiers drawn from \<open>n\<close> on\<close>
  "newVariablesFrom gen newToolId n idx [] = []"
| "newVariablesFrom gen newToolId n idx (v # vs) =
     \<lparr>var_id = gen n,
      var_name = orElse (vi_name v) (''var'' @ showNat (idx + 1)),
      var_apiToolID = newToolId,
      var_description = JsString (orElse (vi_description v) [])\<rparr>
     # newVariablesFrom gen newToolId (Suc n) (Suc idx) vs"

definition varNameToIdOf :: "apiToolInputVariable list \<Rightarrow> jsobj" where
  "varNameToIdOf newVariables = fromEntries (map (\<lambda>v. (var_name v, var_id v)) newVariables)"

fun urlQueryParameters :: "(nat \<Rightarrow> string) \<Rightarrow> jsobj \<Rightarrow> nat \<Rightarrow> string list \<Rightarrow> keyValue list" where
  "urlQueryParameters gen varNameToId n [] = []"
| "urlQueryParameters gen varNameToId n (pair # rest) =
     (let key = pairKey pair; val = pairValue pair
      in if key = [] then urlQueryParameters gen varNameToId n rest
         else
           (case wholeMatch val of
              Some variableName \<Rightarrow>
                (let variableID = jsGet varNameToId variableName
                 in \<lparr>kv_id = gen n, kv_key = key,
                      kv_value = [if truthy variableID
                                  then [Text [], VarRef variableID, Text '' '']
                                  else [Text val]]\<rparr>
                    # urlQueryParameters gen varNameToId (Suc n) rest)
            | None \<Rightarrow>
                if val \<noteq> []
                then \<lparr>kv_id = gen n, kv_key = key, kv_value = [[Text val]]\<rparr>
                     # urlQueryParameters gen varNameToId (Suc n) rest
                else urlQueryParameters gen varNameToId n rest))"

definition isVarPart :: "part \<Rightarrow> bool" where
  \<comment> \<open>\<^verbatim>\<open>typeof t === 'object' && t.variableID\<close>\<close>
  "isVarPart p = (case p of Text s \<Rightarrow> False | VarRef v \<Rightarrow> truthy v)"

definition hardcodedText :: "qpValueIn \<Rightarrow> string option" where
  \<comment> \<open>the test for "an array with a hardcoded string", giving \<^verbatim>\<open>qp.value[0].text[0]\<close>\<close>
  "hardcodedText v =
     (case v of
        QvArray [Text s # ps] \<Rightarrow> if list_ex isVarPart ps then None else Some s
      | _ \<Rightarrow> None)"

definition normalizeQueryParameter :: "jsobj \<Rightarrow> nat \<Rightarrow> string \<Rightarrow> qpIn \<Rightarrow> keyValue" where
  "normalizeQueryParameter varNameToId idx newId qp =
     (let key = orElse (qi_key qp) (orElse (qi_name qp) (''param'' @ showNat (idx + 1)));
          variableName = orElse (qi_name qp) (orElse (qi_key qp) key);
          variableID = jsGet varNameToId variableName
      in case qi_value qp of
           QvString s \<Rightarrow>
             if s \<noteq> [] then \<lparr>kv_id = newId, kv_key = key, kv_value = [[Text s]]\<rparr>
             else if truthy variableID
             then \<lparr>kv_id = newId, kv_key = key,
                   kv_value = [[Text [], VarRef variableID, Text '' '']]\<rparr>
             else \<lparr>kv_id = newId, kv_key = key, kv_value = [[Text []]]\<rparr>
         | v \<Rightarrow>
             (case hardcodedText v of
                Some s \<Rightarrow> \<lparr>kv_id = newId, kv_key = key, kv_value = [[Text s]]\<rparr>
              | None \<Rightarrow>
                  if truthy variableID
                  then \<lparr>kv_id = newId, kv_key = key,
                        kv_value = [[Text [], VarRef variableID, Text '' '']]\<rparr>
                  else \<lparr>kv_id = newId, kv_key = key, kv_value = [[Text []]]\<rparr>))"

fun fallbackQueryParameters ::
  "(nat \<Rightarrow> string) \<Rightarrow> jsobj \<Rightarrow> nat \<Rightarrow> nat \<Rightarrow> qpIn list \<Rightarrow> keyValue list" where
  \<comment> \<open>\<^verbatim>\<open>(toolObj.queryParameters || []).map((qp, idx) => ...)\<close>\<close>
  "fallbackQueryParameters gen varNameToId n idx [] = []"
| "fallbackQueryParameters gen varNameToId n idx (qp # qps) =
     normalizeQueryParameter varNameToId idx (gen n) qp
     # fallbackQueryParameters gen varNameToId (Suc n) (Suc idx) qps"

text \<open>
  \<^verbatim>\<open>urlStr.replace(/\{\{(.*?)\}\}/g, '{$1}')\<close>. \<open>lazyUntilClose s\<close> matches
  \<^verbatim>\<open>(.*?)\}\}\<close> at the start of \<open>s\<close>: the shortest run of characters other than line
  terminators that is followed by two closing braces, and the text after those.
\<close>

definition isLineTerminator :: "char \<Rightarrow> bool" where
  "isLineTerminator c = (of_char c \<in> set [10, 13 :: nat])"

fun lazyUntilClose :: "string \<Rightarrow> (string \<times> string) option" where
  "lazyUntilClose [] = None"
| "lazyUntilClose [c] = None"
| "lazyUntilClose (c # d # cs) =
     (if isClose c \<and> isClose d then Some ([], cs)
      else if isLineTerminator c then None
      else (case lazyUntilClose (d # cs) of
              None \<Rightarrow> None
            | Some (b, r) \<Rightarrow> Some (c # b, r)))"

lemma lazyUntilClose_shorter:
  "lazyUntilClose s = Some (b, r) \<Longrightarrow> length r < length s"
  by (induction s arbitrary: b rule: lazyUntilClose.induct)
     (auto split: if_splits option.splits)

function fixBraces :: "string \<Rightarrow> string" where
  "fixBraces [] = []"
| "fixBraces [c] = [c]"
| "fixBraces (c # d # cs) =
     (if isOpen c \<and> isOpen d
      then (case lazyUntilClose cs of
              Some (b, r) \<Rightarrow> CHR ''{'' # b @ CHR ''}'' # fixBraces r
            | None \<Rightarrow> c # fixBraces (d # cs))
      else c # fixBraces (d # cs))"
  by pat_completeness auto
termination
  by (relation "measure length") (auto dest: lazyUntilClose_shorter)

definition urlAfterExtraction :: "urlIn \<Rightarrow> string \<Rightarrow> urlIn" where
  \<comment> \<open>\<^verbatim>\<open>toolObj.url[0].text[0] = urlStr\<close>, when the URL is an array with a \<^verbatim>\<open>text\<close>\<close>
  "urlAfterExtraction url urlStr =
     (case url of
        UrlObjects (ps # rest) \<Rightarrow> UrlObjects ((Text urlStr # tl ps) # rest)
      | _ \<Rightarrow> url)"

definition normalizeUrl :: "urlIn \<Rightarrow> part list list" where
  "normalizeUrl url =
     (case url of
        UrlAbsent \<Rightarrow> [[Text []]]
      | UrlString s \<Rightarrow> [[Text s]]
      | UrlObjects xs \<Rightarrow> xs
      | UrlStrings [] \<Rightarrow> []
      | UrlStrings (s # ss) \<Rightarrow> [map Text (s # ss)])"

definition cleanUrl :: "bool \<Rightarrow> part list list \<Rightarrow> error + part list list" where
  \<comment> \<open>the last block of the function; \<open>hasParams\<close> is \<^verbatim>\<open>toolObj.queryParameters.length > 0\<close>\<close>
  "cleanUrl hasParams url =
     (case url of
        [] \<Rightarrow> Inr url
      | [] # rest \<Rightarrow> Inr url
      | (VarRef v # ps) # rest \<Rightarrow> Inl TypeError
      | (Text s # ps) # rest \<Rightarrow>
          Inr ((Text (fixBraces (if hasParams then takeWhile (\<lambda>c. \<not> isQuestion c) s else s)) # ps)
               # rest))"

text \<open>
  \<^verbatim>\<open>addApiToolFromJson(aiJson, vfData)\<close>, in steps. \<open>survivingVariables\<close>: the declared
  variables that pass \<^verbatim>\<open>variables.filter((v) => referencedVars.has(v.name))\<close>.
\<close>

definition survivingVariables :: "payload \<Rightarrow> varIn list" where
  "survivingVariables p = filter (isReferenced (referencedVarsOf p)) (declaredOf p)"

text \<open>
  \<open>extractQueryParameters\<close>: the parameters parsed from the URL's query string if there
  are any, the generator's own array normalized otherwise.
\<close>

definition extractQueryParameters ::
  "(nat \<Rightarrow> string) \<Rightarrow> jsobj \<Rightarrow> nat \<Rightarrow> toolIn \<Rightarrow> keyValue list" where
  "extractQueryParameters gen varNameToId n1 toolObj =
     (let urlStr = urlStrOf (ti_url toolObj);
          parsed = (if list_ex isQuestion urlStr
                    then urlQueryParameters gen varNameToId n1 (pairsOf urlStr)
                    else [])
      in if parsed \<noteq> [] then parsed
         else fallbackQueryParameters gen varNameToId n1 0
                (case ti_queryParameters toolObj of None \<Rightarrow> [] | Some qps \<Rightarrow> qps))"

text \<open>\<open>extractUrl\<close>: \<^verbatim>\<open>toolObj.url\<close> as it stands when the tool is pushed.\<close>

definition extractUrl :: "toolIn \<Rightarrow> part list list" where
  "extractUrl toolObj =
     (let urlStr = urlStrOf (ti_url toolObj)
      in normalizeUrl
           (if list_ex isQuestion urlStr
            then urlAfterExtraction (ti_url toolObj) (takeWhile (\<lambda>c. \<not> isQuestion c) urlStr)
            else ti_url toolObj))"

text \<open>
  \<open>normalizeTool\<close>: the new variables, the tool as pushed and the number of identifiers
  drawn so far (\<open>gen 0\<close> is \<^verbatim>\<open>newToolId\<close>).
\<close>

definition normalizeTool ::
  "(nat \<Rightarrow> string) \<Rightarrow> payload \<Rightarrow> apiToolInputVariable list \<times> apiTool \<times> nat" where
  "normalizeTool gen p =
     (let toolObj = toolObjOf p;
          newVariables = newVariablesFrom gen (gen 0) 1 0 (survivingVariables p);
          n1 = 1 + length newVariables;
          queryParameters = extractQueryParameters gen (varNameToIdOf newVariables) n1 toolObj
      in (newVariables,
          \<lparr>tool_id = gen 0, tool_name = ti_name toolObj,
           tool_description = orElse (ti_description toolObj) [],
           tool_url = extractUrl toolObj,
           tool_httpMethod = orElse (ti_httpMethod toolObj) ''get'',
           tool_queryParameters = queryParameters,
           tool_headers = (case ti_headers toolObj of None \<Rightarrow> [] | Some hs \<Rightarrow> hs),
           tool_body = ti_body toolObj\<rparr>,
          n1 + length queryParameters))"

definition agentLinks :: "string \<Rightarrow> string \<Rightarrow> document \<Rightarrow> agentAPITool list" where
  \<comment> \<open>the link pushed "if agentID is available": the first agent of \<^verbatim>\<open>vfData.agents\<close>\<close>
  "agentLinks newId newToolId vfData =
     (case agents vfData of
        [] \<Rightarrow> []
      | agentID # rest \<Rightarrow>
          if agentID \<noteq> []
          then [\<lparr>link_id = newId, link_agentID = agentID, link_apiToolID = newToolId\<rparr>]
          else [])"

text \<open>
  The whole function. It mutates \<^verbatim>\<open>vfData\<close> in place and may throw: the result is the
  exception, if any, and \<^verbatim>\<open>vfData\<close> as the call leaves it. The tool pushed is a shallow
  copy of \<^verbatim>\<open>toolObj\<close>, so it shares the \<^verbatim>\<open>url\<close> array that the last block rewrites.
\<close>

definition addApiToolFromJson ::
  "(nat \<Rightarrow> string) \<Rightarrow> aiJson \<Rightarrow> document \<Rightarrow> error option \<times> document" where
  "addApiToolFromJson gen aiJson vfData =
     (if falsy aiJson \<or> typeof aiJson \<noteq> ''object'' then (Some InvalidAIToolJSON, vfData)
      else
        (let p = (case aiJson of JObject q \<Rightarrow> q | _ \<Rightarrow> emptyPayload);
             (newVariables, tool, n2) = normalizeTool gen p;
             pushed = (\<lambda>t. vfData\<lparr>apiToolInputVariables :=
                                     apiToolInputVariables vfData @ newVariables,
                                   apiTools := apiTools vfData @ [t],
                                   agentAPITools :=
                                     agentAPITools vfData @ agentLinks (gen n2) (gen 0) vfData\<rparr>)
         in case cleanUrl (tool_queryParameters tool \<noteq> []) (tool_url tool) of
              Inl e \<Rightarrow> (Some e, pushed tool)
            | Inr url3 \<Rightarrow> (None, pushed (tool\<lparr>tool_url := url3\<rparr>))))"







section \<open>Notions of the specification\<close>

subsection \<open>Templates\<close>

text \<open>
  A template as its author writes it: literal text and placeholders, a placeholder being
  a name wrapped in \<open>k\<close> pairs of braces (\<^verbatim>\<open>{name}\<close> for \<open>k = 1\<close>, \<^verbatim>\<open>{{name}}\<close> for
  \<open>k = 2\<close>).
\<close>

datatype item = Lit string | Placeholder nat string

fun unparseItem :: "item \<Rightarrow> string" where
  "unparseItem (Lit l) = l"
| "unparseItem (Placeholder k n) = replicate k CHR ''{'' @ n @ replicate k CHR ''}''"

definition unparse :: "item list \<Rightarrow> string" where
  "unparse t = concat (map unparseItem t)"

text \<open>
  Templates whose braces are exactly the braces of their placeholders: every placeholder
  has at least one pair of braces and a non-empty name of name characters, literal text
  holds no opening brace, and the text right after a placeholder does not start with a
  closing brace. This is narrower than a template with well-written placeholders: a JSON
  body, which opens with a brace and may close right after a placeholder, is not of this
  kind.
\<close>

definition startsWithClose :: "string \<Rightarrow> bool" where
  "startsWithClose s = (case s of [] \<Rightarrow> False | c # cs \<Rightarrow> isClose c)"

fun bracesApart :: "item list \<Rightarrow> bool" where
  "bracesApart [] = True"
| "bracesApart (Lit l # t) = (\<not> list_ex isOpen l \<and> bracesApart t)"
| "bracesApart (Placeholder k n # t) =
     (0 < k \<and> n \<noteq> [] \<and> list_all isNameChar n \<and> \<not> startsWithClose (unparse t) \<and>
      bracesApart t)"

text \<open>
  Concatenating the literal segments, each variable reference replaced by the value
  \<open>val\<close> gives to what it refers to.
\<close>

fun renderPart :: "(jsval \<Rightarrow> string) \<Rightarrow> part \<Rightarrow> string" where
  "renderPart val (Text s) = s"
| "renderPart val (VarRef r) = val r"

definition render :: "(jsval \<Rightarrow> string) \<Rightarrow> part list \<Rightarrow> string" where
  "render val ps = concat (map (renderPart val) ps)"

text \<open>The template with the value of each placeholder's name written in its place.\<close>

fun substituteItem :: "(string \<Rightarrow> string) \<Rightarrow> item \<Rightarrow> string" where
  "substituteItem v (Lit l) = l"
| "substituteItem v (Placeholder k n) = v n"

definition substitute :: "(string \<Rightarrow> string) \<Rightarrow> item list \<Rightarrow> string" where
  "substitute v t = concat (map (substituteItem v) t)"

subsection \<open>Header entries\<close>

text \<open>
  The raw value text of a header entry \<^verbatim>\<open>key:value\<close>: what follows the first colon,
  without the surrounding white space.
\<close>

definition rawHeaderValue :: "string \<Rightarrow> string" where
  "rawHeaderValue h = trim (tl (dropWhile (\<lambda>c. c \<noteq> CHR '':'') h))"

subsection \<open>Query strings\<close>

text \<open>
  The value of a \<^verbatim>\<open>key=value\<close> pair as its author writes it: a single placeholder (a
  name between \<open>a\<close> opening and \<open>c\<close> closing braces) filling the entire value, or any
  other text. \<open>queryText\<close> writes the pairs down, joined by \<^verbatim>\<open>&\<close>.
\<close>

datatype qvalue = Single nat string nat | Other string

fun qvalueText :: "qvalue \<Rightarrow> string" where
  "qvalueText (Single a nm c) = replicate a CHR ''{'' @ nm @ replicate c CHR ''}''"
| "qvalueText (Other v) = v"

definition pairText :: "string \<times> qvalue \<Rightarrow> string" where
  "pairText kv = fst kv @ ''='' @ qvalueText (snd kv)"

definition queryText :: "(string \<times> qvalue) list \<Rightarrow> string" where
  "queryText kvs = join ''&'' (map pairText kvs)"

text \<open>A text that is a single placeholder and nothing else.\<close>

definition isPlaceholderText :: "string \<Rightarrow> bool" where
  "isPlaceholderText v =
     (\<exists>a nm c. 0 < a \<and> 0 < c \<and> nm \<noteq> [] \<and> list_all isNameChar nm \<and>
        v = replicate a CHR ''{'' @ nm @ replicate c CHR ''}'')"

text \<open>
  A pair is well formed when its key and its value are not empty and hold no \<^verbatim>\<open>&\<close> and
  no \<^verbatim>\<open>=\<close>, the pair has no white space around it, a placeholder value has a non-empty
  name of name characters between its braces, and a value of the other kind is not a
  placeholder.
\<close>

definition plainText :: "string \<Rightarrow> bool" where
  "plainText s = (s \<noteq> [] \<and> \<not> list_ex (\<lambda>c. c = CHR ''&'' \<or> c = CHR ''='') s)"

fun wellFormedValue :: "qvalue \<Rightarrow> bool" where
  "wellFormedValue (Single a nm c) = (0 < a \<and> 0 < c \<and> nm \<noteq> [] \<and> list_all isNameChar nm)"
| "wellFormedValue (Other v) = (plainText v \<and> \<not> isWhiteSpace (last v) \<and> \<not> isPlaceholderText v)"

definition wellFormedPair :: "string \<times> qvalue \<Rightarrow> bool" where
  "wellFormedPair kv =
     (plainText (fst kv) \<and> \<not> isWhiteSpace (hd (fst kv)) \<and> wellFormedValue (snd kv))"

text \<open>
  What the query parameter made from a value has to be. The value of a single placeholder
  that names a declared variable: the three-element \<^verbatim>\<open>text\<close> with a reference to the new
  identifier of a variable of that name. A placeholder that names no declared variable
  (and no member of \<^verbatim>\<open>Object.prototype\<close>), and any other value: the literal text.
\<close>

fun extracted :: "varIn list \<Rightarrow> apiToolInputVariable list \<Rightarrow> qvalue \<Rightarrow> part list list \<Rightarrow> bool" where
  "extracted declared newVars (Other v) val = (val = [[Text v]])"
| "extracted declared newVars (Single a nm c) val =
     (if list_ex (\<lambda>dv. vi_name dv = Some nm) declared
      then list_ex (\<lambda>v. var_name v = nm \<and> val = [[Text [], VarRef (JsString (var_id v)), Text '' '']])
             newVars
      else (nm \<in> set objectPrototypeKeys \<or> val = [[Text (qvalueText (Single a nm c))]]))"

subsection \<open>References to variables\<close>

text \<open>
  The identifier of the variable of a given name among the variables of one tool, and the
  reference a placeholder of that name stands for. The name \<^verbatim>\<open>__proto__\<close> is set apart:
  \<^verbatim>\<open>variableIDs['__proto__']\<close> reads the prototype object.
\<close>

definition idOfName :: "apiToolInputVariable list \<Rightarrow> string \<Rightarrow> string" where
  "idOfName vars nm = (case find (\<lambda>v. var_name v = nm) vars of None \<Rightarrow> [] | Some v \<Rightarrow> var_id v)"

definition referenceTo :: "apiToolInputVariable list \<Rightarrow> string \<Rightarrow> jsval" where
  "referenceTo vars nm =
     (if nm = ''__proto__'' then JsInherited nm else JsString (idOfName vars nm))"

section \<open>Properties of the tokenizer\<close>

lemma isNameChar_not_open: "isNameChar c \<Longrightarrow> \<not> isOpen c"
  by (auto simp: isNameChar_def isOpen_def)

lemma isNameChar_not_close: "isNameChar c \<Longrightarrow> \<not> isClose c"
  by (auto simp: isNameChar_def isClose_def)

lemma varRegex_matchAt_not_open:
  "\<not> isOpen c \<Longrightarrow> varRegex_matchAt (c # cs) = None"
  by (simp add: varRegex_matchAt_def)

lemma varRegex_exec_literal:
  "\<not> list_ex isOpen l \<Longrightarrow>
   varRegex_exec (l @ r) =
     (case varRegex_exec r of None \<Rightarrow> None | Some (p, nm, r') \<Rightarrow> Some (l @ p, nm, r'))"
  by (induction l) (auto simp: varRegex_matchAt_not_open split: option.splits)

lemma takeWhile_run:
  "P c \<Longrightarrow> takeWhile P r = [] \<Longrightarrow> takeWhile P (replicate k c @ r) = replicate k c"
  by (induction k) simp_all

lemma dropWhile_run:
  "P c \<Longrightarrow> takeWhile P r = [] \<Longrightarrow> dropWhile P (replicate k c @ r) = r"
  by (induction k) (simp_all add: takeWhile_eq_Nil_iff dropWhile_eq_self_iff)

lemma takeWhile_all:
  "list_all P n \<Longrightarrow> takeWhile P r = [] \<Longrightarrow> takeWhile P (n @ r) = n"
  by (induction n) simp_all

lemma dropWhile_all:
  "list_all P n \<Longrightarrow> takeWhile P r = [] \<Longrightarrow> dropWhile P (n @ r) = r"
  by (induction n) (simp_all add: takeWhile_eq_Nil_iff dropWhile_eq_self_iff)

lemma varRegex_matchAt_general:
  assumes a: "0 < a" and c: "0 < c" and n: "n \<noteq> []" "list_all isNameChar n"
    and r: "\<not> startsWithClose r"
  shows "varRegex_matchAt (replicate a CHR ''{'' @ n @ replicate c CHR ''}'' @ r) = Some (n, r)"
proof -
  let ?o = "replicate a CHR ''{''" and ?c = "replicate c CHR ''}''"
  from n obtain x n' where n': "n = x # n'" "isNameChar x"
    by (cases n) auto
  obtain c' where c': "c = Suc c'" using c by (cases c) auto
  have s1: "takeWhile isOpen (n @ ?c @ r) = []"
    using n' by (simp add: isNameChar_not_open)
  have s2: "takeWhile isNameChar (?c @ r) = []"
    by (simp add: c' isNameChar_def)
  have s3: "takeWhile isClose r = []"
    using r by (cases r) (simp_all add: startsWithClose_def)
  have t1: "takeWhile isOpen (?o @ n @ ?c @ r) = ?o"
    by (rule takeWhile_run [OF _ s1]) (simp add: isOpen_def)
  have d1: "dropWhile isOpen (?o @ n @ ?c @ r) = n @ ?c @ r"
    by (rule dropWhile_run [OF _ s1]) (simp add: isOpen_def)
  have t2: "takeWhile isNameChar (n @ ?c @ r) = n"
    by (rule takeWhile_all [OF n(2) s2])
  have d2: "dropWhile isNameChar (n @ ?c @ r) = ?c @ r"
    by (rule dropWhile_all [OF n(2) s2])
  have t3: "takeWhile isClose (?c @ r) = ?c"
    by (rule takeWhile_run [OF _ s3]) (simp add: isClose_def)
  have d3: "dropWhile isClose (?c @ r) = r"
    by (rule dropWhile_run [OF _ s3]) (simp add: isClose_def)
  show ?thesis
    unfolding varRegex_matchAt_def Let_def t1 d1 t2 d2 t3 d3
    using a c n(1) by simp
qed

lemma varRegex_matchAt_placeholder:
  assumes "0 < k" "n \<noteq> []" "list_all isNameChar n" "\<not> startsWithClose r"
  shows "varRegex_matchAt (replicate k CHR ''{'' @ n @ replicate k CHR ''}'' @ r) = Some (n, r)"
  using assms(1) assms by (rule varRegex_matchAt_general)

lemma varRegex_exec_placeholder:
  assumes "0 < k" "n \<noteq> []" "list_all isNameChar n" "\<not> startsWithClose r"
  shows "varRegex_exec (replicate k CHR ''{'' @ n @ replicate k CHR ''}'' @ r) = Some ([], n, r)"
proof -
  obtain k' where k': "k = Suc k'" using assms(1) by (cases k) auto
  have "varRegex_exec (CHR ''{'' # replicate k' CHR ''{'' @ n @ replicate k CHR ''}'' @ r)
          = Some ([], n, r)"
    using varRegex_matchAt_placeholder [OF assms] by (simp add: k')
  then show ?thesis by (simp add: k')
qed

lemma render_tokenize:
  "render val (tokenize lk s) =
     (case varRegex_exec s of
        None \<Rightarrow> s
      | Some (p, nm, r) \<Rightarrow> p @ val (lk nm) @ render val (tokenize lk r))"
  by (subst tokenize.simps) (auto simp: render_def split: option.splits)

text \<open>
  Where the tokenizer is right: for a template whose braces are exactly the braces of its
  placeholders, tokenizing its text and concatenating the literal segments, each variable
  reference replaced by the value of what it refers to, gives the template's text with
  that value written in place of each placeholder.
\<close>

theorem tokenize_round_trip_braces_apart:
  "bracesApart t \<Longrightarrow>
   render val (tokenize lk (unparse t)) = substitute (\<lambda>n. val (lk n)) t"
proof (induction t rule: bracesApart.induct)
  case 1
  show ?case
    by (subst render_tokenize) (simp add: unparse_def substitute_def)
next
  case (2 l t)
  then have l: "\<not> list_ex isOpen l"
    and ih: "render val (tokenize lk (unparse t)) = substitute (\<lambda>n. val (lk n)) t"
    by simp_all
  have u: "unparse (Lit l # t) = l @ unparse t"
    by (simp add: unparse_def)
  have "render val (tokenize lk (l @ unparse t)) = l @ render val (tokenize lk (unparse t))"
    by (subst render_tokenize, subst (2) render_tokenize)
       (simp add: varRegex_exec_literal [OF l] split: option.splits)
  then show ?case
    by (simp add: u ih substitute_def)
next
  case (3 k n t)
  then have p: "0 < k" "n \<noteq> []" "list_all isNameChar n" "\<not> startsWithClose (unparse t)"
    and ih: "render val (tokenize lk (unparse t)) = substitute (\<lambda>n. val (lk n)) t"
    by simp_all
  have u: "unparse (Placeholder k n # t)
             = replicate k CHR ''{'' @ n @ replicate k CHR ''}'' @ unparse t"
    by (simp add: unparse_def)
  have "render val (tokenize lk (unparse (Placeholder k n # t)))
          = val (lk n) @ render val (tokenize lk (unparse t))"
    unfolding u by (subst render_tokenize) (simp add: varRegex_exec_placeholder [OF p])
  then show ?case
    by (simp add: ih substitute_def)
qed

theorem tokenize_round_trip_example:
  "bracesApart [Lit ''https://a/'', Placeholder 1 ''id'', Lit ''/b?q='', Placeholder 2 ''q''] \<and>
   render (\<lambda>r. case r of JsString s \<Rightarrow> ''<'' @ s @ ''>'' | _ \<Rightarrow> [])
     (tokenize JsString
       (unparse [Lit ''https://a/'', Placeholder 1 ''id'', Lit ''/b?q='', Placeholder 2 ''q'']))
   = ''https://a/<id>/b?q=<q>''"
proof -
  have wf: "bracesApart [Lit ''https://a/'', Placeholder 1 ''id'', Lit ''/b?q='', Placeholder 2 ''q'']"
    by (simp add: isOpen_def isClose_def isNameChar_def startsWithClose_def unparse_def)
  from tokenize_round_trip_braces_apart [OF wf] wf show ?thesis
    by (simp add: substitute_def)
qed

text \<open>
  C1. Round trip of tokenization. The claim asks that tokenizing a template and
  concatenating the segments, the value of each variable written for its reference, gives
  the template with the values written for the placeholders. The pattern ends with
  \<^verbatim>\<open>\}+\<close>, so a match takes every closing brace that follows a placeholder. In the body
  template \<^verbatim>\<open>{"id": {id}}\<close> (the double quote is the character \<open>0x22\<close>) the placeholder
  \<^verbatim>\<open>{id}\<close> is followed by the brace that closes the JSON object: the body stored by the
  operator path has the two segments \<^verbatim>\<open>{"id": \<close> and the reference, and with the value
  \<^verbatim>\<open>42\<close> they concatenate to \<^verbatim>\<open>{"id": 42\<close>, whereas the template with the value written
  for the placeholder is \<^verbatim>\<open>{"id": 42}\<close>.
\<close>

theorem body_template_loses_closing_brace:
  "addApiTool (\<lambda>n. ''id'' @ showNat n) (\<lambda>n. []) ''agent1''
     \<lparr>ans_name = ''Create user'', ans_description = [], ans_url = ''https://a.example/users'',
      ans_httpMethod = Post, ans_queryParamsInput = [], ans_headersInput = [],
      ans_wantsBody = True,
      ans_bodyInput = ''{'' @ CHR 0x22 # ''id'' @ CHR 0x22 # '': {id}}''\<rparr>
     \<lparr>apiTools = [], apiToolInputVariables = [], agentAPITools = [], agents = [''agent1'']\<rparr>
   = Inr \<lparr>apiTools =
            [\<lparr>tool_id = ''id0'', tool_name = Some ''Create user'', tool_description = [],
              tool_url = [[Text ''https://a.example/users'']], tool_httpMethod = ''post'',
              tool_queryParameters = [], tool_headers = [],
              tool_body = Some
                \<lparr>body_type = ''raw-input'',
                 body_content =
                   [Text (''{'' @ CHR 0x22 # ''id'' @ CHR 0x22 # '': ''), VarRef (JsString ''id1'')],
                 body_contentType = ''json''\<rparr>\<rparr>],
          apiToolInputVariables =
            [\<lparr>var_id = ''id1'', var_name = ''id'', var_apiToolID = ''id0'',
              var_description = JsString []\<rparr>],
          agentAPITools = [\<lparr>link_id = ''id2'', link_agentID = ''agent1'', link_apiToolID = ''id0''\<rparr>],
          agents = [''agent1'']\<rparr> \<and>
   unparse [Lit (''{'' @ CHR 0x22 # ''id'' @ CHR 0x22 # '': ''), Placeholder 1 ''id'', Lit ''}'']
     = ''{'' @ CHR 0x22 # ''id'' @ CHR 0x22 # '': {id}}'' \<and>
   render (\<lambda>r. ''42'')
     [Text (''{'' @ CHR 0x22 # ''id'' @ CHR 0x22 # '': ''), VarRef (JsString ''id1'')]
     = ''{'' @ CHR 0x22 # ''id'' @ CHR 0x22 # '': 42'' \<and>
   substitute (\<lambda>n. ''42'')
     [Lit (''{'' @ CHR 0x22 # ''id'' @ CHR 0x22 # '': ''), Placeholder 1 ''id'', Lit ''}'']
     = ''{'' @ CHR 0x22 # ''id'' @ CHR 0x22 # '': 42}''"
  by code_simp

lemma varRegex_matchAt_Some:
  assumes "varRegex_matchAt v = Some (nm, r)"
  shows "\<exists>a c. 0 < a \<and> 0 < c \<and> nm \<noteq> [] \<and> list_all isNameChar nm \<and>
           v = replicate a CHR ''{'' @ nm @ replicate c CHR ''}'' @ r"
proof -
  let ?o = "takeWhile isOpen v" and ?r1 = "dropWhile isOpen v"
  let ?r2 = "dropWhile isNameChar ?r1"
  let ?c = "takeWhile isClose ?r2"
  from assms have o: "?o \<noteq> []" and nm: "nm = takeWhile isNameChar ?r1" "nm \<noteq> []"
    and c: "?c \<noteq> []" and r: "r = dropWhile isClose ?r2"
    by (auto simp: varRegex_matchAt_def Let_def split: if_splits)
  have "\<forall>x\<in>set ?o. x = CHR ''{''"
    by (auto dest: set_takeWhileD simp: isOpen_def)
  then have o': "replicate (length ?o) CHR ''{'' = ?o"
    by (rule replicate_length_same)
  have "\<forall>x\<in>set ?c. x = CHR ''}''"
    by (auto dest: set_takeWhileD simp: isClose_def)
  then have c': "replicate (length ?c) CHR ''}'' = ?c"
    by (rule replicate_length_same)
  have all: "list_all isNameChar nm"
    unfolding nm by (auto simp: list_all_iff dest: set_takeWhileD)
  have "v = ?o @ ?r1" by simp
  also have "?r1 = nm @ ?r2" unfolding nm by simp
  also have "?r2 = ?c @ r" unfolding r by simp
  finally have "v = replicate (length ?o) CHR ''{'' @ nm @ replicate (length ?c) CHR ''}'' @ r"
    by (simp only: o' c')
  with o c nm(2) all show ?thesis
    by (intro exI [of _ "length ?o"] exI [of _ "length ?c"]) simp
qed

section \<open>Properties of the two operations\<close>

subsection \<open>Splitting and joining\<close>

lemma split_not_Nil: "split sep s \<noteq> []"
  by (induction s) (auto split: list.splits)

lemma join_split: "join [sep] (split sep s) = s"
proof (induction s)
  case Nil
  show ?case by simp
next
  case (Cons c cs)
  obtain w ws where sp: "split sep cs = w # ws"
    using split_not_Nil [of sep cs] by (cases "split sep cs") auto
  with Cons show ?case
    by (cases ws) auto
qed

lemma join_tl_split: "join [sep] (tl (split sep s)) = tl (dropWhile (\<lambda>c. c \<noteq> sep) s)"
proof (induction s)
  case Nil
  show ?case by simp
next
  case (Cons c cs)
  obtain w ws where sp: "split sep cs = w # ws"
    using split_not_Nil [of sep cs] by (cases "split sep cs") auto
  show ?case
  proof (cases "c = sep")
    case True
    have "join [sep] (split sep cs) = cs" by (rule join_split)
    with True sp show ?thesis by simp
  next
    case False
    with sp Cons show ?thesis by simp
  qed
qed


lemma split_no_sep: "sep \<notin> set x \<Longrightarrow> split sep x = [x]"
  by (induction x) auto

lemma split_append_sep:
  "sep \<notin> set x \<Longrightarrow> split sep (x @ sep # r) = x # split sep r"
proof (induction x)
  case Nil
  obtain w ws where "split sep r = w # ws"
    using split_not_Nil [of sep r] by (cases "split sep r") auto
  then show ?case by simp
next
  case (Cons c x)
  then show ?case by auto
qed

lemma split_join:
  "xs \<noteq> [] \<Longrightarrow> list_all (\<lambda>x. sep \<notin> set x) xs \<Longrightarrow> split sep (join [sep] xs) = xs"
proof (induction "[sep]" xs rule: join.induct)
  case 1
  then show ?case by simp
next
  case (2 x)
  then show ?case by (simp add: split_no_sep)
next
  case (3 x y ys)
  then show ?case by (simp add: split_append_sep)
qed

lemma trim_id:
  "s \<noteq> [] \<Longrightarrow> \<not> isWhiteSpace (hd s) \<Longrightarrow> \<not> isWhiteSpace (last s) \<Longrightarrow> trim s = s"
proof -
  assume s: "s \<noteq> []" and h: "\<not> isWhiteSpace (hd s)" and l: "\<not> isWhiteSpace (last s)"
  from s h have 1: "dropWhile isWhiteSpace s = s"
    by (cases s) simp_all
  from s l have 2: "dropWhile isWhiteSpace (rev s) = rev s"
    by (cases "rev s") (simp_all add: last_rev [symmetric] hd_rev)
  show ?thesis by (simp add: trim_def 1 2)
qed

subsection \<open>The shape of a successful result\<close>

lemma parseHeader_value: "kv_value (parseHeader i h) = [[Text (rawHeaderValue h)]]"
proof -
  obtain key rest where sp: "split CHR '':'' h = key # rest"
    using split_not_Nil [of "CHR '':''" h] by (cases "split CHR '':'' h") auto
  with join_tl_split [of "CHR '':''" h] show ?thesis
    by (simp add: parseHeader_def rawHeaderValue_def)
qed

lemma mapWithIds_values:
  "map kv_value (mapWithIds gen n parseHeader hs) = map (\<lambda>h. [[Text (rawHeaderValue h)]]) hs"
  by (induction hs arbitrary: n) (simp_all add: parseHeader_value)

lemma buildHeaders_values:
  "map kv_value (buildHeaders gen n inp) =
     (if isBlank inp then [] else map (\<lambda>h. [[Text (rawHeaderValue h)]]) (split CHR '','' inp))"
  by (simp add: buildHeaders_def mapWithIds_values)


lemma buildHeaders_blank: "isBlank inp \<Longrightarrow> buildHeaders gen n inp = []"
  by (simp add: buildHeaders_def)

lemma variableRegistry_headers [simp]:
  "variableRegistry gen varDesc (a\<lparr>ans_headersInput := h\<rparr>) = variableRegistry gen varDesc a"
  by (simp add: variableRegistry_def bodyTemplateOf_def)

lemma assembleTool_fields:
  "assembleTool gen a n1 ids = (tool, n3) \<Longrightarrow>
   tool_url tool = [tokenize (jsGet ids) (ans_url a)] \<and>
   tool_queryParameters tool =
     fst (buildQueryParameters gen ids n1 (queryParamPairsOf (ans_queryParamsInput a))) \<and>
   tool_body tool = buildBody ids (bodyTemplateOf a) \<and>
   tool_httpMethod tool = methodString (ans_httpMethod a) \<and>
   map kv_value (tool_headers tool) =
     (if isBlank (ans_headersInput a) then []
      else map (\<lambda>h. [[Text (rawHeaderValue h)]]) (split CHR '','' (ans_headersInput a)))"
  by (auto simp: assembleTool_def Let_def buildHeaders_values buildHeaders_blank split: prod.splits)

lemma addApiTool_Inr:
  assumes "addApiTool gen varDesc selectedAgentId a data = Inr d"
  obtains n1 newVars ids tool n3 where
    "variableRegistry gen varDesc a = (n1, newVars, ids)"
    "assembleTool gen a n1 ids = (tool, n3)"
    "d = data\<lparr>apiToolInputVariables := apiToolInputVariables data @ newVars,
              apiTools := apiTools data @ [tool],
              agentAPITools := agentAPITools data @
                [\<lparr>link_id = gen n3, link_agentID = selectedAgentId, link_apiToolID = gen 0\<rparr>]\<rparr>"
    "\<not> list_ex (isDuplicate (ans_name a) (replaceVars (ans_url a))) (apiTools data)"
  using assms
  by (auto simp: addApiTool_def Let_def split: if_splits prod.splits)

lemma addApiToolFromJson_None:
  assumes "addApiToolFromJson gen aiJson vfData = (None, d)"
  obtains newVariables tool n2 url3 where
    "normalizeTool gen (case aiJson of JObject q \<Rightarrow> q | _ \<Rightarrow> emptyPayload) = (newVariables, tool, n2)"
    "cleanUrl (tool_queryParameters tool \<noteq> []) (tool_url tool) = Inr url3"
    "d = vfData\<lparr>apiToolInputVariables := apiToolInputVariables vfData @ newVariables,
                apiTools := apiTools vfData @ [tool\<lparr>tool_url := url3\<rparr>],
                agentAPITools := agentAPITools vfData @ agentLinks (gen n2) (gen 0) vfData\<rparr>"
    "\<not> falsy aiJson" "typeof aiJson = ''object''"
  using assms
  by (auto simp: addApiToolFromJson_def Let_def split: if_splits prod.splits sum.splits)

subsection \<open>Duplicate tools\<close>

lemma replaceVars_no_match: "varRegex_exec s = None \<Longrightarrow> replaceVars s = s"
  by (subst replaceVars.simps) simp

text \<open>
  The part of the duplicate check of the operator path that works: a tool whose name is
  already in the document, or whose URL has no placeholder and is the one-text URL of a
  tool in the document, is rejected, and nothing is saved.
\<close>

theorem operator_rejects_duplicate:
  assumes "list_ex (\<lambda>t. tool_name t = Some (ans_name a)) (apiTools data) \<or>
           (varRegex_exec (ans_url a) = None \<and>
            list_ex (\<lambda>t. tool_url t = [[Text (ans_url a)]]) (apiTools data))"
  shows "addApiTool gen varDesc selectedAgentId a data = Inl DuplicateTool"
proof -
  from assms obtain t where t: "t \<in> set (apiTools data)"
    and c: "tool_name t = Some (ans_name a) \<or>
            (varRegex_exec (ans_url a) = None \<and> tool_url t = [[Text (ans_url a)]])"
    by (auto simp: list_ex_iff)
  from c have "isDuplicate (ans_name a) (replaceVars (ans_url a)) t"
    by (auto simp: isDuplicate_def urlText_def replaceVars_no_match)
  with t have "list_ex (isDuplicate (ans_name a) (replaceVars (ans_url a))) (apiTools data)"
    by (auto simp: list_ex_iff)
  then show ?thesis
    by (simp add: addApiTool_def)
qed

text \<open>
  C2. Duplicate rejection. The claim asks both operations to reject a tool whose name or
  wildcard-normalized URL is already in the document. The generator path has no such
  check: the first equation adds a second tool named \<^verbatim>\<open>Users\<close> with the URL of the first.
  The operator path compares the new URL, its placeholders replaced by \<^verbatim>\<open>{var}\<close>, with
  the joined text of an existing URL, where a variable reference reads
  \<^verbatim>\<open>[object Object]\<close>: the second equation adds a second tool for the URL
  \<^verbatim>\<open>https://a.example/users/{id}\<close>.
\<close>

theorem duplicates_not_rejected:
  "addApiToolFromJson (\<lambda>n. ''id'' @ showNat n)
     (JObject (emptyPayload\<lparr>p_apiTool := Some (emptyTool\<lparr>ti_name := Some ''Users'',
        ti_url := UrlString ''https://a.example/users''\<rparr>)\<rparr>))
     \<lparr>apiTools =
        [\<lparr>tool_id = ''t1'', tool_name = Some ''Users'', tool_description = [],
          tool_url = [[Text ''https://a.example/users'']], tool_httpMethod = ''get'',
          tool_queryParameters = [], tool_headers = [], tool_body = None\<rparr>],
      apiToolInputVariables = [], agentAPITools = [], agents = []\<rparr>
   = (None,
      \<lparr>apiTools =
        [\<lparr>tool_id = ''t1'', tool_name = Some ''Users'', tool_description = [],
          tool_url = [[Text ''https://a.example/users'']], tool_httpMethod = ''get'',
          tool_queryParameters = [], tool_headers = [], tool_body = None\<rparr>,
         \<lparr>tool_id = ''id0'', tool_name = Some ''Users'', tool_description = [],
          tool_url = [[Text ''https://a.example/users'']], tool_httpMethod = ''get'',
          tool_queryParameters = [], tool_headers = [], tool_body = None\<rparr>],
      apiToolInputVariables = [], agentAPITools = [], agents = []\<rparr>) \<and>
   addApiTool (\<lambda>n. ''id'' @ showNat n) (\<lambda>n. []) ''agent1''
     \<lparr>ans_name = ''User again'', ans_description = [], ans_url = ''https://a.example/users/{id}'',
      ans_httpMethod = Get, ans_queryParamsInput = [], ans_headersInput = [],
      ans_wantsBody = False, ans_bodyInput = []\<rparr>
     \<lparr>apiTools =
        [\<lparr>tool_id = ''t1'', tool_name = Some ''User'', tool_description = [],
          tool_url = [[Text ''https://a.example/users/'', VarRef (JsString ''v1'')]],
          tool_httpMethod = ''get'', tool_queryParameters = [], tool_headers = [],
          tool_body = None\<rparr>],
      apiToolInputVariables =
        [\<lparr>var_id = ''v1'', var_name = ''id'', var_apiToolID = ''t1'', var_description = JsString []\<rparr>],
      agentAPITools = [], agents = []\<rparr>
   = Inr
      \<lparr>apiTools =
        [\<lparr>tool_id = ''t1'', tool_name = Some ''User'', tool_description = [],
          tool_url = [[Text ''https://a.example/users/'', VarRef (JsString ''v1'')]],
          tool_httpMethod = ''get'', tool_queryParameters = [], tool_headers = [],
          tool_body = None\<rparr>,
         \<lparr>tool_id = ''id0'', tool_name = Some ''User again'', tool_description = [],
          tool_url = [[Text ''https://a.example/users/'', VarRef (JsString ''id1'')]],
          tool_httpMethod = ''get'', tool_queryParameters = [], tool_headers = [],
          tool_body = None\<rparr>],
      apiToolInputVariables =
        [\<lparr>var_id = ''v1'', var_name = ''id'', var_apiToolID = ''t1'', var_description = JsString []\<rparr>,
         \<lparr>var_id = ''id1'', var_name = ''id'', var_apiToolID = ''id0'', var_description = JsString []\<rparr>],
      agentAPITools = [\<lparr>link_id = ''id2'', link_agentID = ''agent1'', link_apiToolID = ''id0''\<rparr>],
      agents = []\<rparr>"
  by code_simp

subsection \<open>Referenced variables\<close>

text \<open>
  C3. Unreferenced-variable filtering. The claim asks that exactly the declared
  variables whose names are referenced survive. A URL given as a string is only scanned
  for its query string, so a placeholder in its path does not count: of the declared
  variables \<^verbatim>\<open>a\<close> and \<^verbatim>\<open>b\<close>, with the URL \<^verbatim>\<open>https://a.example/items/{a}\<close>, none survives.
\<close>

theorem referenced_variable_dropped:
  "addApiToolFromJson (\<lambda>n. ''id'' @ showNat n)
     (JObject (emptyPayload\<lparr>
        p_apiTool := Some (emptyTool\<lparr>ti_name := Some ''Item'',
          ti_url := UrlString ''https://a.example/items/{a}''\<rparr>),
        p_apiToolInputVariables := Some
          [\<lparr>vi_id = Some ''v1'', vi_name = Some ''a'', vi_description = None\<rparr>,
           \<lparr>vi_id = Some ''v2'', vi_name = Some ''b'', vi_description = None\<rparr>]\<rparr>))
     \<lparr>apiTools = [], apiToolInputVariables = [], agentAPITools = [], agents = []\<rparr>
   = (None,
      \<lparr>apiTools =
        [\<lparr>tool_id = ''id0'', tool_name = Some ''Item'', tool_description = [],
          tool_url = [[Text ''https://a.example/items/{a}'']], tool_httpMethod = ''get'',
          tool_queryParameters = [], tool_headers = [], tool_body = None\<rparr>],
      apiToolInputVariables = [], agentAPITools = [], agents = []\<rparr>)"
  by code_simp

subsection \<open>Query-string extraction\<close>

lemma wholeMatch_Single:
  "wellFormedValue (Single a nm c) \<Longrightarrow> wholeMatch (qvalueText (Single a nm c)) = Some nm"
  using varRegex_matchAt_general [of a c nm "[]"]
  by (simp add: wholeMatch_def startsWithClose_def)

lemma wholeMatch_None: "\<not> isPlaceholderText v \<Longrightarrow> wholeMatch v = None"
proof (rule ccontr)
  assume np: "\<not> isPlaceholderText v" and "wholeMatch v \<noteq> None"
  then obtain nm where "varRegex_matchAt v = Some (nm, [])"
    by (auto simp: wholeMatch_def split: option.splits if_splits)
  from varRegex_matchAt_Some [OF this] have "isPlaceholderText v"
    by (auto simp: isPlaceholderText_def)
  with np show False by simp
qed

lemma isPlaceholderText_iff: "isPlaceholderText v \<longleftrightarrow> wholeMatch v \<noteq> None"
proof
  assume "isPlaceholderText v"
  then obtain a nm c where "wellFormedValue (Single a nm c)" "v = qvalueText (Single a nm c)"
    by (auto simp: isPlaceholderText_def)
  then show "wholeMatch v \<noteq> None"
    using wholeMatch_Single [of a nm c] by simp
next
  assume "wholeMatch v \<noteq> None"
  then show "isPlaceholderText v"
    by (rule contrapos_np) (rule wholeMatch_None)
qed

lemma plainText_set: "plainText s \<Longrightarrow> CHR ''&'' \<notin> set s \<and> CHR ''='' \<notin> set s \<and> s \<noteq> []"
  by (auto simp: plainText_def list_ex_iff)

lemma qvalueText_Single_set:
  "list_all isNameChar nm \<Longrightarrow> x \<in> set (qvalueText (Single a nm c)) \<Longrightarrow>
   x = CHR ''{'' \<or> x = CHR ''}'' \<or> isNameChar x"
  by (auto simp: list_all_iff)

lemma wellFormedValue_set:
  assumes "wellFormedValue q"
  shows "CHR ''&'' \<notin> set (qvalueText q) \<and> CHR ''='' \<notin> set (qvalueText q) \<and> qvalueText q \<noteq> [] \<and>
         \<not> isWhiteSpace (last (qvalueText q))"
proof (cases q)
  case (Single a nm c)
  with assms have wf: "0 < a" "0 < c" "nm \<noteq> []" "list_all isNameChar nm" by simp_all
  have n1: "\<not> isNameChar CHR ''&''" "\<not> isNameChar CHR ''=''" by (simp_all add: isNameChar_def)
  have "CHR ''&'' \<notin> set (qvalueText (Single a nm c))" "CHR ''='' \<notin> set (qvalueText (Single a nm c))"
    using qvalueText_Single_set [OF wf(4), of _ a c] n1 by blast+
  moreover obtain c' where "c = Suc c'" using wf(2) by (cases c) auto
  then have "last (qvalueText (Single a nm c)) = CHR ''}''"
    by (simp add: replicate_append_same [symmetric] del: replicate_Suc)
  ultimately show ?thesis using Single wf by (simp add: isWhiteSpace_def)
next
  case (Other v)
  with assms show ?thesis by (auto dest: plainText_set)
qed

lemma pairText_split:
  assumes "wellFormedPair kv"
  shows "split CHR ''='' (pairText kv) = [fst kv, qvalueText (snd kv)]"
proof -
  from assms have k: "CHR ''='' \<notin> set (fst kv)" and v: "CHR ''='' \<notin> set (qvalueText (snd kv))"
    by (auto simp: wellFormedPair_def dest: plainText_set wellFormedValue_set)
  show ?thesis
    using split_append_sep [OF k, of "qvalueText (snd kv)"] split_no_sep [OF v]
    by (simp add: pairText_def)
qed

lemma pairKey_pairText: "wellFormedPair kv \<Longrightarrow> pairKey (pairText kv) = fst kv"
  by (simp add: pairKey_def pairText_split)

lemma pairValue_pairText: "wellFormedPair kv \<Longrightarrow> pairValue (pairText kv) = qvalueText (snd kv)"
  by (simp add: pairValue_def pairText_split)

lemma pairText_trim:
  assumes "wellFormedPair kv"
  shows "trim (pairText kv) = pairText kv" "pairText kv \<noteq> []" "CHR ''&'' \<notin> set (pairText kv)"
proof -
  from assms have k: "fst kv \<noteq> []" "\<not> isWhiteSpace (hd (fst kv))" "CHR ''&'' \<notin> set (fst kv)"
    and v: "qvalueText (snd kv) \<noteq> []" "\<not> isWhiteSpace (last (qvalueText (snd kv)))"
      "CHR ''&'' \<notin> set (qvalueText (snd kv))"
    by (auto simp: wellFormedPair_def dest: plainText_set wellFormedValue_set)
  show "pairText kv \<noteq> []" using k by (simp add: pairText_def)
  show "CHR ''&'' \<notin> set (pairText kv)" using k v by (simp add: pairText_def)
  have "hd (pairText kv) = hd (fst kv)" using k by (simp add: pairText_def)
  moreover have "last (pairText kv) = last (qvalueText (snd kv))" using v by (simp add: pairText_def)
  ultimately show "trim (pairText kv) = pairText kv"
    using k v \<open>pairText kv \<noteq> []\<close> by (intro trim_id) simp_all
qed

lemma pairsOf_queryText:
  assumes base: "\<not> list_ex isQuestion base" and kvs: "kvs \<noteq> []" "list_all wellFormedPair kvs"
  shows "pairsOf (base @ ''?'' @ queryText kvs) = map pairText kvs"
proof -
  have b: "\<forall>x\<in>set base. \<not> isQuestion x"
    using base by (simp add: list_ex_iff)
  then have d: "dropWhile (\<lambda>c. \<not> isQuestion c) (base @ ''?'' @ queryText kvs) = ''?'' @ queryText kvs"
    by (simp add: dropWhile_append2 isQuestion_def)
  have noamp: "list_all (\<lambda>x. CHR ''&'' \<notin> set x) (map pairText kvs)"
    using kvs(2) by (auto simp: list_all_iff dest: pairText_trim(3))
  have sp: "split CHR ''&'' (queryText kvs) = map pairText kvs"
    unfolding queryText_def using split_join [OF _ noamp] kvs(1) by simp
  have tr: "map trim (map pairText kvs) = map pairText kvs"
    using kvs(2) by (auto simp: list_all_iff dest: pairText_trim(1))
  have ne: "filter (\<lambda>s. s \<noteq> []) (map pairText kvs) = map pairText kvs"
    using kvs(2) by (auto simp: list_all_iff filter_id_conv dest: pairText_trim(2))
  have t: "tl (dropWhile (\<lambda>c. \<not> isQuestion c) (base @ ''?'' @ queryText kvs)) = queryText kvs"
    using d by simp
  show ?thesis
    unfolding pairsOf_def t sp tr ne by (rule refl)
qed

lemma setAdd_set [simp]: "set (setAdd vars x) = insert x (set vars)"
  by (auto simp: setAdd_def)

lemma foldl_setAdd_set [simp]: "set (foldl setAdd vars xs) = set vars \<union> set xs"
  by (induction xs arbitrary: vars) auto

lemma addMatches_set [simp]: "set (addMatches vars s) = set vars \<union> set (matchedNames s)"
  by (simp add: addMatches_def)

lemma varRegex_exec_name: "varRegex_exec s = Some (p, nm, r) \<Longrightarrow> nm \<noteq> []"
proof (induction s arbitrary: p)
  case Nil
  then show ?case by simp
next
  case (Cons c cs)
  then show ?case
    by (auto simp: varRegex_matchAt_def Let_def split: option.splits if_splits)
qed

lemma matchedNames_nonempty: "[] \<notin> set (matchedNames s)"
proof (induction s rule: matchedNames.induct)
  case (1 s)
  show ?case
  proof (cases "varRegex_exec s")
    case None
    then show ?thesis by (subst matchedNames.simps) simp
  next
    case (Some a)
    obtain p nm r where a: "a = (p, nm, r)" by (cases a) auto
    from Some a have "nm \<noteq> []" by (auto dest: varRegex_exec_name)
    moreover from 1 Some a have "[] \<notin> set (matchedNames r)" by simp
    ultimately show ?thesis using Some a by (subst matchedNames.simps) auto
  qed
qed

lemma addPartRefs_mono: "set vars \<subseteq> set (addPartRefs h declared vars part)"
  by (cases part) (auto split: option.splits)

lemma addPartRefs_nonempty:
  "[] \<notin> set vars \<Longrightarrow> [] \<notin> set (addPartRefs h declared vars part)"
  using matchedNames_nonempty by (cases part) (auto split: option.splits)

lemma foldl_addPartRefs_mono: "set vars \<subseteq> set (foldl (addPartRefs h declared) vars ps)"
proof (induction ps arbitrary: vars)
  case Nil
  show ?case by simp
next
  case (Cons a ps)
  have "set vars \<subseteq> set (addPartRefs h declared vars a)" by (rule addPartRefs_mono)
  also have "\<dots> \<subseteq> set (foldl (addPartRefs h declared) (addPartRefs h declared vars a) ps)"
    by (rule Cons)
  finally show ?case by simp
qed

lemma foldl_addPartRefs_nonempty:
  "[] \<notin> set vars \<Longrightarrow> [] \<notin> set (foldl (addPartRefs h declared) vars ps)"
  by (induction ps arbitrary: vars) (simp_all add: addPartRefs_nonempty)

lemma wholeMatch_nonempty: "wholeMatch v = Some nm \<Longrightarrow> nm \<noteq> []"
  by (auto simp: wholeMatch_def varRegex_matchAt_def Let_def split: option.splits if_splits)

lemma addPairRef_set:
  "set (addPairRef vars pair) =
     (if pairKey pair = [] then set vars
      else case wholeMatch (pairValue pair) of None \<Rightarrow> set vars | Some nm \<Rightarrow> insert nm (set vars))"
  by (simp add: addPairRef_def split: option.splits)

lemma foldl_addPairRef_mono: "set vars \<subseteq> set (foldl addPairRef vars pairs)"
proof (induction pairs arbitrary: vars)
  case Nil
  show ?case by simp
next
  case (Cons a pairs)
  have "set vars \<subseteq> set (addPairRef vars a)"
    by (auto simp: addPairRef_set split: option.splits)
  also have "\<dots> \<subseteq> set (foldl addPairRef (addPairRef vars a) pairs)" by (rule Cons)
  finally show ?case by simp
qed

lemma addPairRef_nonempty: "[] \<notin> set vars \<Longrightarrow> [] \<notin> set (addPairRef vars a)"
  by (auto simp: addPairRef_set dest: wholeMatch_nonempty split: option.splits if_splits)

lemma foldl_addPairRef_nonempty:
  "[] \<notin> set vars \<Longrightarrow> [] \<notin> set (foldl addPairRef vars pairs)"
proof (induction pairs arbitrary: vars)
  case Nil
  then show ?case by simp
next
  case (Cons a pairs)
  from Cons.prems have "[] \<notin> set (addPairRef vars a)" by (rule addPairRef_nonempty)
  then have "[] \<notin> set (foldl addPairRef (addPairRef vars a) pairs)" by (rule Cons.IH)
  then show ?case by simp
qed

lemma foldl_addPairRef_Single:
  assumes "list_all wellFormedPair kvs" "(k, Single a nm c) \<in> set kvs"
  shows "nm \<in> set (foldl addPairRef vars (map pairText kvs))"
  using assms
proof (induction kvs arbitrary: vars)
  case Nil
  then show ?case by simp
next
  case (Cons kv kvs)
  show ?case
  proof (cases "kv = (k, Single a nm c)")
    case True
    with Cons.prems have wf: "wellFormedPair kv" by simp
    with True have k: "pairKey (pairText kv) \<noteq> []"
      by (auto simp: pairKey_pairText wellFormedPair_def dest: plainText_set)
    from wf True have "wellFormedValue (Single a nm c)"
      by (simp add: wellFormedPair_def)
    then have "wholeMatch (qvalueText (Single a nm c)) = Some nm"
      by (rule wholeMatch_Single)
    with wf True have v: "wholeMatch (pairValue (pairText kv)) = Some nm"
      by (simp only: pairValue_pairText snd_conv)
    from k v have "nm \<in> set (addPairRef vars (pairText kv))"
      by (simp add: addPairRef_set)
    then show ?thesis
      using foldl_addPairRef_mono [of "addPairRef vars (pairText kv)" "map pairText kvs"] by auto
  next
    case False
    with Cons show ?thesis by simp
  qed
qed

text \<open>The three steps of the search for referenced names.\<close>

lemma referencedVarsOf_steps:
  obtains vars1 vars2 where
    "[] \<notin> set vars1"
    "vars2 = (if list_ex isQuestion (urlStrOf (ti_url (toolObjOf p)))
              then foldl addPairRef vars1 (pairsOf (urlStrOf (ti_url (toolObjOf p)))) else vars1)"
    "referencedVarsOf p =
       (case ti_body (toolObjOf p) of
          None \<Rightarrow> vars2
        | Some b \<Rightarrow> foldl (addPartRefs (p_apiToolInputVariables p \<noteq> None) (declaredOf p)) vars2
                     (body_content b))"
proof -
  define h where "h = (p_apiToolInputVariables p \<noteq> None)"
  define vars1 where
    "vars1 = (case ti_url (toolObjOf p) of
                UrlObjects (ps # rest) \<Rightarrow> foldl (addPartRefs h (declaredOf p)) [] ps
              | _ \<Rightarrow> [])"
  define vars2 where
    "vars2 = (if list_ex isQuestion (urlStrOf (ti_url (toolObjOf p)))
              then foldl addPairRef vars1 (pairsOf (urlStrOf (ti_url (toolObjOf p)))) else vars1)"
  have 1: "[] \<notin> set vars1"
    unfolding vars1_def
    by (simp add: foldl_addPartRefs_nonempty split: urlIn.splits list.splits)
  have 3: "referencedVarsOf p =
       (case ti_body (toolObjOf p) of
          None \<Rightarrow> vars2
        | Some b \<Rightarrow> foldl (addPartRefs (p_apiToolInputVariables p \<noteq> None) (declaredOf p)) vars2
                     (body_content b))"
    unfolding referencedVarsOf_def Let_def vars2_def vars1_def h_def by (rule refl)
  from 1 vars2_def 3 show thesis by (rule that)
qed

lemma referencedVarsOf_nonempty: "[] \<notin> set (referencedVarsOf p)"
proof -
  obtain vars1 vars2 where 1: "[] \<notin> set vars1"
    and 2: "vars2 = (if list_ex isQuestion (urlStrOf (ti_url (toolObjOf p)))
              then foldl addPairRef vars1 (pairsOf (urlStrOf (ti_url (toolObjOf p)))) else vars1)"
    and 3: "referencedVarsOf p =
       (case ti_body (toolObjOf p) of
          None \<Rightarrow> vars2
        | Some b \<Rightarrow> foldl (addPartRefs (p_apiToolInputVariables p \<noteq> None) (declaredOf p)) vars2
                     (body_content b))"
    by (rule referencedVarsOf_steps)
  from 1 have "[] \<notin> set vars2"
    unfolding 2 by (simp add: foldl_addPairRef_nonempty)
  then show ?thesis
    unfolding 3 by (simp add: foldl_addPartRefs_nonempty split: option.splits)
qed

lemma referencedVarsOf_Single:
  assumes url: "urlStrOf (ti_url (toolObjOf p)) = base @ ''?'' @ queryText kvs"
    and base: "\<not> list_ex isQuestion base" and kvs: "kvs \<noteq> []" "list_all wellFormedPair kvs"
    and mem: "(k, Single a nm c) \<in> set kvs"
  shows "nm \<in> set (referencedVarsOf p)"
proof -
  obtain vars1 vars2 where 1: "[] \<notin> set vars1"
    and 2: "vars2 = (if list_ex isQuestion (urlStrOf (ti_url (toolObjOf p)))
              then foldl addPairRef vars1 (pairsOf (urlStrOf (ti_url (toolObjOf p)))) else vars1)"
    and 3: "referencedVarsOf p =
       (case ti_body (toolObjOf p) of
          None \<Rightarrow> vars2
        | Some b \<Rightarrow> foldl (addPartRefs (p_apiToolInputVariables p \<noteq> None) (declaredOf p)) vars2
                     (body_content b))"
    by (rule referencedVarsOf_steps)
  have q: "list_ex isQuestion (base @ ''?'' @ queryText kvs)"
    by (simp add: isQuestion_def)
  have "vars2 = foldl addPairRef vars1 (map pairText kvs)"
    unfolding 2 url using q by (simp only: pairsOf_queryText [OF base kvs] if_True)
  then have "nm \<in> set vars2"
    using foldl_addPairRef_Single [OF kvs(2) mem] by simp
  moreover have "set vars2 \<subseteq> set (referencedVarsOf p)"
    unfolding 3 by (simp add: foldl_addPartRefs_mono split: option.splits)
  ultimately show ?thesis by (rule rev_subsetD)
qed

lemma orElse_Some: "nm \<noteq> [] \<Longrightarrow> orElse (Some nm) d = nm"
  by (simp add: orElse_def)

lemma newVariablesFrom_names:
  "map var_name (newVariablesFrom gen tid n idx vs) =
     map (\<lambda>(i, v). orElse (vi_name v) (''var'' @ showNat (i + 1))) (zip [idx ..< idx + length vs] vs)"
proof (induction vs arbitrary: n idx)
  case Nil
  show ?case by simp
next
  case (Cons v vs)
  have "[idx ..< idx + length (v # vs)] = idx # [Suc idx ..< Suc idx + length vs]"
    by (simp add: upt_rec)
  then show ?case
    using Cons [of "Suc n" "Suc idx"] by simp
qed

lemma newVariablesFrom_ids:
  "v \<in> set (newVariablesFrom gen tid n idx vs) \<Longrightarrow> \<exists>i. var_id v = gen i"
  by (induction vs arbitrary: n idx) auto

lemma newVariablesFrom_name_in:
  assumes "dv \<in> set vs" "vi_name dv = Some nm" "nm \<noteq> []"
  shows "\<exists>v \<in> set (newVariablesFrom gen tid n idx vs). var_name v = nm"
  using assms(1)
proof (induction vs arbitrary: n idx)
  case Nil
  then show ?case by simp
next
  case (Cons x vs)
  then show ?case
    using assms(2,3) by (auto simp: orElse_Some)
qed

lemma newVariablesFrom_name_from:
  assumes "v \<in> set (newVariablesFrom gen tid n idx vs)"
    and "\<forall>dv \<in> set vs. \<exists>nm. vi_name dv = Some nm \<and> nm \<noteq> []"
  shows "\<exists>dv \<in> set vs. vi_name dv = Some (var_name v)"
  using assms
proof (induction vs arbitrary: n idx)
  case Nil
  then show ?case by simp
next
  case (Cons x vs)
  then show ?case
    by (fastforce simp: orElse_Some)
qed

lemma survivingVariables_named:
  "dv \<in> set (survivingVariables p) \<Longrightarrow> \<exists>nm. vi_name dv = Some nm \<and> nm \<noteq> []"
  using referencedVarsOf_nonempty [of p]
  by (auto simp: survivingVariables_def isReferenced_def split: option.splits)

lemma survivingVariables_iff:
  "dv \<in> set (survivingVariables p) \<longleftrightarrow>
     dv \<in> set (declaredOf p) \<and> (\<exists>nm. vi_name dv = Some nm \<and> nm \<in> set (referencedVarsOf p))"
  by (auto simp: survivingVariables_def isReferenced_def split: option.splits)

lemma jsGet_fromEntries:
  "jsGet (varNameToIdOf vars) nm =
     (if nm \<in> var_name ` set vars
      then JsString (var_id (the (find (\<lambda>v. var_name v = nm) (rev vars))))
      else if nm \<in> set objectPrototypeKeys then JsInherited nm else JsUndefined)"
proof -
  have m: "map_of (rev (map (\<lambda>v. (var_name v, var_id v)) vars)) nm =
             map_option var_id (find (\<lambda>v. var_name v = nm) (rev vars))"
    by (induction vars rule: rev_induct) auto
  have f: "find (\<lambda>v. var_name v = nm) (rev vars) = None \<longleftrightarrow> nm \<notin> var_name ` set vars"
    by (auto simp: find_None_iff)
  show ?thesis
    unfolding jsGet_def varNameToIdOf_def fromEntries_def m
    using f by (cases "find (\<lambda>v. var_name v = nm) (rev vars)") auto
qed

lemma find_SomeD: "find P xs = Some x \<Longrightarrow> x \<in> set xs \<and> P x"
  by (induction xs) (auto split: if_splits)

lemma jsGet_known:
  assumes "nm \<in> var_name ` set vars"
  shows "\<exists>v \<in> set vars. var_name v = nm \<and> jsGet (varNameToIdOf vars) nm = JsString (var_id v)"
proof -
  from assms obtain v where v: "find (\<lambda>v. var_name v = nm) (rev vars) = Some v"
    by (cases "find (\<lambda>v. var_name v = nm) (rev vars)") (auto simp: find_None_iff)
  then have "v \<in> set vars" "var_name v = nm"
    by (auto dest: find_SomeD)
  with v assms show ?thesis
    by (auto simp: jsGet_fromEntries intro!: bexI [of _ v])
qed

lemma urlQueryParameters_wellFormed:
  assumes "list_all wellFormedPair kvs"
    and known: "\<And>k a nm c. (k, Single a nm c) \<in> set kvs \<Longrightarrow> extracted declared newVars (Single a nm c)
         [if truthy (jsGet ids nm) then [Text [], VarRef (jsGet ids nm), Text '' '']
          else [Text (qvalueText (Single a nm c))]]"
  shows "map kv_key (urlQueryParameters gen ids n (map pairText kvs)) = map fst kvs \<and>
         list_all2 (extracted declared newVars) (map snd kvs)
           (map kv_value (urlQueryParameters gen ids n (map pairText kvs)))"
  using assms
proof (induction kvs arbitrary: n)
  case Nil
  show ?case by simp
next
  case (Cons kv kvs)
  obtain k q where kv: "kv = (k, q)" by (cases kv) auto
  from Cons.prems(1) have wf: "wellFormedPair kv" and wfs: "list_all wellFormedPair kvs"
    by simp_all
  have key: "pairKey (pairText kv) = k" "k \<noteq> []"
    using wf kv by (auto simp: pairKey_pairText wellFormedPair_def dest: plainText_set)
  have val: "pairValue (pairText kv) = qvalueText q"
    using wf kv by (simp add: pairValue_pairText)
  have ih: "map kv_key (urlQueryParameters gen ids m (map pairText kvs)) = map fst kvs \<and>
         list_all2 (extracted declared newVars) (map snd kvs)
           (map kv_value (urlQueryParameters gen ids m (map pairText kvs)))" for m
  proof (rule Cons.IH [OF wfs])
    fix k a nm c
    assume "(k, Single a nm c) \<in> set kvs"
    then have "(k, Single a nm c) \<in> set (kv # kvs)" by simp
    then show "extracted declared newVars (Single a nm c)
         [if truthy (jsGet ids nm) then [Text [], VarRef (jsGet ids nm), Text '' '']
          else [Text (qvalueText (Single a nm c))]]"
      by (rule Cons.prems(2))
  qed
  show ?case
  proof (cases q)
    case (Single a nm c)
    with wf kv have "wellFormedValue (Single a nm c)" by (simp add: wellFormedPair_def)
    then have wm: "wholeMatch (qvalueText q) = Some nm"
      unfolding Single by (rule wholeMatch_Single)
    define val where
      "val = [if truthy (jsGet ids nm) then [Text [], VarRef (jsGet ids nm), Text '' '']
              else [Text (qvalueText q)]]"
    have ex: "extracted declared newVars (Single a nm c) val"
      unfolding val_def Single using Cons.prems(2) [of k a nm c] kv Single
      by (simp del: extracted.simps)
    have "urlQueryParameters gen ids n (pairText kv # map pairText kvs) =
            \<lparr>kv_id = gen n, kv_key = k, kv_value = val\<rparr>
            # urlQueryParameters gen ids (Suc n) (map pairText kvs)"
      unfolding val_def using key by (simp add: val wm Let_def)
    then show ?thesis
      using ih [of "Suc n"] ex kv Single
      by (simp del: extracted.simps urlQueryParameters.simps)
  next
    case (Other v)
    with wf kv have v: "v \<noteq> []" "\<not> isPlaceholderText v"
      by (auto simp: wellFormedPair_def dest: plainText_set)
    then have wm: "wholeMatch v = None"
      by (simp add: wholeMatch_None)
    have "urlQueryParameters gen ids n (map pairText (kv # kvs)) =
            \<lparr>kv_id = gen n, kv_key = k, kv_value = [[Text v]]\<rparr>
            # urlQueryParameters gen ids (Suc n) (map pairText kvs)"
      using key v(1) Other by (simp add: val wm Let_def)
    moreover have "extracted declared newVars (Other v) [[Text v]]" by simp
    ultimately show ?thesis
      using ih [of "Suc n"] kv Other
      by (simp del: extracted.simps urlQueryParameters.simps)
  qed
qed

lemma lazyUntilClose_set:
  "lazyUntilClose s = Some (b, r) \<Longrightarrow> set b \<union> set r \<subseteq> set s"
  by (induction s arbitrary: b rule: lazyUntilClose.induct)
     (auto split: if_splits option.splits)

lemma fixBraces_set: "set (fixBraces s) \<subseteq> set s \<union> {CHR ''{'', CHR ''}''}"
proof (induction "length s" arbitrary: s rule: less_induct)
  case less
  show ?case
  proof (cases s rule: fixBraces.cases)
    case 1
    then show ?thesis by simp
  next
    case (2 c)
    then show ?thesis by simp
  next
    case (3 c d cs)
    have tail: "set (fixBraces (d # cs)) \<subseteq> set (d # cs) \<union> {CHR ''{'', CHR ''}''}"
      using less [of "d # cs"] 3 by simp
    show ?thesis
    proof (cases "lazyUntilClose cs")
      case None
      with 3 tail show ?thesis by auto
    next
      case (Some a)
      obtain b r where a: "a = (b, r)" by (cases a) auto
      from Some a have sub: "set b \<union> set r \<subseteq> set cs"
        by (auto dest: lazyUntilClose_set)
      from Some a have "length r < length cs"
        by (auto dest: lazyUntilClose_shorter)
      then have "set (fixBraces r) \<subseteq> set r \<union> {CHR ''{'', CHR ''}''}"
        using less [of r] 3 by simp
      with sub tail show ?thesis using 3 Some a by auto
    qed
  qed
qed

lemma fixBraces_no_question:
  "\<not> list_ex isQuestion s \<Longrightarrow> \<not> list_ex isQuestion (fixBraces s)"
  using fixBraces_set [of s] by (auto simp: list_ex_iff isQuestion_def)

lemma takeWhile_base:
  "\<not> list_ex isQuestion base \<Longrightarrow> takeWhile (\<lambda>c. \<not> isQuestion c) (base @ ''?'' @ r) = base"
  by (induction base) (simp_all add: isQuestion_def)

lemma takeWhile_base_only:
  "\<not> list_ex isQuestion base \<Longrightarrow> takeWhile (\<lambda>c. \<not> isQuestion c) base = base"
  by (simp add: list_ex_iff)

text \<open>
  Where the extraction is right: a tool of the generator path whose URL is
  a string, or a one-segment array holding one string, of the form
  \<^verbatim>\<open>base?k1=v1&...&kn=vn\<close> with \<open>n \<ge> 1\<close> well-formed pairs and no \<^verbatim>\<open>?\<close> in \<open>base\<close>, and
  generated identifiers that are not empty. The operation succeeds; the tool's URL is the
  one text \<open>base\<close> (double braces collapsed), without \<^verbatim>\<open>?\<close>; the tool has exactly the
  \<open>n\<close> parameters, in order, with the keys \<open>k1 \<dots> kn\<close>; the value of a parameter is a
  single variable reference when its text is a single placeholder naming a declared
  variable, and the literal text when it is a placeholder naming no declared variable
  or is any other text.
\<close>

theorem query_string_extraction:
  assumes url: "ti_url (toolObjOf p) = UrlString (base @ ''?'' @ queryText kvs) \<or>
                ti_url (toolObjOf p) = UrlObjects [[Text (base @ ''?'' @ queryText kvs)]]"
    and base: "\<not> list_ex isQuestion base"
    and kvs: "kvs \<noteq> []" "list_all wellFormedPair kvs"
    and gen: "\<And>n. gen n \<noteq> []"
  shows "\<exists>newVars tool links.
           addApiToolFromJson gen (JObject p) vfData =
             (None, vfData\<lparr>apiToolInputVariables := apiToolInputVariables vfData @ newVars,
                            apiTools := apiTools vfData @ [tool],
                            agentAPITools := agentAPITools vfData @ links\<rparr>) \<and>
           tool_url tool = [[Text (fixBraces base)]] \<and>
           \<not> list_ex isQuestion (fixBraces base) \<and>
           map kv_key (tool_queryParameters tool) = map fst kvs \<and>
           list_all2 (extracted (declaredOf p) newVars) (map snd kvs)
             (map kv_value (tool_queryParameters tool))"
proof -
  let ?full = "base @ ''?'' @ queryText kvs"
  define t where "t = toolObjOf p"
  define newVars where "newVars = newVariablesFrom gen (gen 0) 1 0 (survivingVariables p)"
  define ids where "ids = varNameToIdOf newVars"
  define n1 where "n1 = 1 + length newVars"
  define parsed where "parsed = urlQueryParameters gen ids n1 (map pairText kvs)"
  have ustr: "urlStrOf (ti_url (toolObjOf p)) = ?full"
    using url by (auto simp: urlStrOf_def)
  have q: "list_ex isQuestion ?full"
    by (simp add: isQuestion_def)
  have known: "extracted (declaredOf p) newVars (Single a nm c)
         [if truthy (jsGet ids nm) then [Text [], VarRef (jsGet ids nm), Text '' '']
          else [Text (qvalueText (Single a nm c))]]"
    if mem: "(k, Single a nm c) \<in> set kvs" for k a nm c
  proof (cases "list_ex (\<lambda>dv. vi_name dv = Some nm) (declaredOf p)")
    case True
    then obtain dv where dv: "dv \<in> set (declaredOf p)" "vi_name dv = Some nm"
      by (auto simp: list_ex_iff)
    from kvs(2) mem have "wellFormedPair (k, Single a nm c)"
      by (auto simp: list_all_iff)
    then have nm: "nm \<noteq> []" by (simp add: wellFormedPair_def)
    have "nm \<in> set (referencedVarsOf p)"
      using ustr base kvs mem by (rule referencedVarsOf_Single)
    with dv have "dv \<in> set (survivingVariables p)"
      by (simp add: survivingVariables_iff)
    from newVariablesFrom_name_in [OF this dv(2) nm, where gen = gen and tid = "gen 0" and n = 1 and idx = 0]
    have "nm \<in> var_name ` set newVars"
      unfolding newVars_def by force
    then obtain v where v: "v \<in> set newVars" "var_name v = nm"
      "jsGet ids nm = JsString (var_id v)"
      unfolding ids_def using jsGet_known by blast
    from v(1) obtain i where "var_id v = gen i"
      unfolding newVars_def by (auto dest: newVariablesFrom_ids)
    with gen have "truthy (jsGet ids nm)" by (simp add: v(3))
    with True v show ?thesis by (auto simp: list_ex_iff)
  next
    case False
    have "nm \<notin> var_name ` set newVars"
    proof
      assume "nm \<in> var_name ` set newVars"
      then obtain v where v: "v \<in> set newVars" "var_name v = nm" by auto
      have "\<forall>dv \<in> set (survivingVariables p). \<exists>nm. vi_name dv = Some nm \<and> nm \<noteq> []"
        by (auto dest: survivingVariables_named)
      with v(1) obtain dv where "dv \<in> set (survivingVariables p)" "vi_name dv = Some (var_name v)"
        unfolding newVars_def by (blast dest: newVariablesFrom_name_from)
      with v(2) have "list_ex (\<lambda>dv. vi_name dv = Some nm) (declaredOf p)"
        by (auto simp: list_ex_iff survivingVariables_iff)
      with False show False by simp
    qed
    then have "jsGet ids nm =
        (if nm \<in> set objectPrototypeKeys then JsInherited nm else JsUndefined)"
      unfolding ids_def by (simp add: jsGet_fromEntries)
    with False show ?thesis by simp
  qed
  have "map kv_key parsed = map fst kvs \<and>
        list_all2 (extracted (declaredOf p) newVars) (map snd kvs) (map kv_value parsed)"
    unfolding parsed_def
  proof (rule urlQueryParameters_wellFormed [OF kvs(2)])
    fix k a nm c
    assume "(k, Single a nm c) \<in> set kvs"
    then show "extracted (declaredOf p) newVars (Single a nm c)
         [if truthy (jsGet ids nm) then [Text [], VarRef (jsGet ids nm), Text '' '']
          else [Text (qvalueText (Single a nm c))]]"
      by (rule known)
  qed
  then have keys: "map kv_key parsed = map fst kvs"
    and vals: "list_all2 (extracted (declaredOf p) newVars) (map snd kvs) (map kv_value parsed)"
    by blast+
  from keys kvs(1) have ne: "parsed \<noteq> []" by auto
  have eq: "extractQueryParameters gen ids n1 (toolObjOf p) = parsed"
    using q ne
    by (simp add: extractQueryParameters_def Let_def ustr pairsOf_queryText [OF base kvs, simplified]
          parsed_def [symmetric])
  have tb: "takeWhile (\<lambda>c. \<not> isQuestion c) ?full = base"
    using base by (rule takeWhile_base)
  have eu: "extractUrl (toolObjOf p) = [[Text ?full]] \<or> extractUrl (toolObjOf p) = [[Text base]]"
    using url q tb
    by (auto simp: extractUrl_def Let_def urlStrOf_def urlAfterExtraction_def normalizeUrl_def)
  have tb2: "takeWhile (\<lambda>c. \<not> isQuestion c) base = base"
    using base by (rule takeWhile_base_only)
  from eu have cu: "cleanUrl True (extractUrl (toolObjOf p)) = Inr [[Text (fixBraces base)]]"
  proof
    assume "extractUrl (toolObjOf p) = [[Text ?full]]"
    then show ?thesis
      unfolding cleanUrl_def by (simp only: list.case part.case if_True tb)
  next
    assume "extractUrl (toolObjOf p) = [[Text base]]"
    then show ?thesis
      unfolding cleanUrl_def by (simp only: list.case part.case if_True tb2)
  qed
  define tool where
    "tool = \<lparr>tool_id = gen 0, tool_name = ti_name (toolObjOf p),
             tool_description = orElse (ti_description (toolObjOf p)) [],
             tool_url = [[Text (fixBraces base)]],
             tool_httpMethod = orElse (ti_httpMethod (toolObjOf p)) ''get'',
             tool_queryParameters = parsed,
             tool_headers = (case ti_headers (toolObjOf p) of None \<Rightarrow> [] | Some hs \<Rightarrow> hs),
             tool_body = ti_body (toolObjOf p)\<rparr>"
  have eq': "extractQueryParameters gen
               (varNameToIdOf (newVariablesFrom gen (gen 0) 1 0 (survivingVariables p)))
               (1 + length (newVariablesFrom gen (gen 0) 1 0 (survivingVariables p)))
               (toolObjOf p) = parsed"
    using eq unfolding ids_def n1_def newVars_def .
  have nt: "normalizeTool gen p =
              (newVars, tool\<lparr>tool_url := extractUrl (toolObjOf p)\<rparr>, n1 + length parsed)"
    unfolding normalizeTool_def Let_def eq' newVars_def n1_def tool_def by simp
  have "addApiToolFromJson gen (JObject p) vfData =
          (None, vfData\<lparr>apiToolInputVariables := apiToolInputVariables vfData @ newVars,
                         apiTools := apiTools vfData @ [tool],
                         agentAPITools := agentAPITools vfData @
                           agentLinks (gen (n1 + length parsed)) (gen 0) vfData\<rparr>)"
    using ne cu by (simp add: addApiToolFromJson_def nt tool_def)
  moreover have "tool_url tool = [[Text (fixBraces base)]]"
    "map kv_key (tool_queryParameters tool) = map fst kvs"
    "list_all2 (extracted (declaredOf p) newVars) (map snd kvs)
       (map kv_value (tool_queryParameters tool))"
    using keys vals by (simp_all add: tool_def)
  moreover have "\<not> list_ex isQuestion (fixBraces base)"
    using base by (rule fixBraces_no_question)
  ultimately show ?thesis by blast
qed

theorem query_string_extraction_example:
  "ti_url (toolObjOf (emptyPayload\<lparr>
      p_apiTool := Some (emptyTool\<lparr>ti_name := Some ''Search'',
        ti_url := UrlString ''https://api.example.com/search?status=active&user={userId}''\<rparr>),
      p_apiToolInputVariables := Some
        [\<lparr>vi_id = Some ''v1'', vi_name = Some ''userId'', vi_description = Some ''the user''\<rparr>]\<rparr>))
     = UrlString (''https://api.example.com/search'' @ ''?'' @
         queryText [(''status'', Other ''active''), (''user'', Single 1 ''userId'' 1)]) \<and>
   \<not> list_ex isQuestion ''https://api.example.com/search'' \<and>
   list_all wellFormedPair [(''status'', Other ''active''), (''user'', Single 1 ''userId'' 1)] \<and>
   (\<forall>n. ''id'' @ showNat n \<noteq> []) \<and>
   addApiToolFromJson (\<lambda>n. ''id'' @ showNat n)
     (JObject (emptyPayload\<lparr>
        p_apiTool := Some (emptyTool\<lparr>ti_name := Some ''Search'',
          ti_url := UrlString ''https://api.example.com/search?status=active&user={userId}''\<rparr>),
        p_apiToolInputVariables := Some
          [\<lparr>vi_id = Some ''v1'', vi_name = Some ''userId'', vi_description = Some ''the user''\<rparr>]\<rparr>))
     \<lparr>apiTools = [], apiToolInputVariables = [], agentAPITools = [], agents = []\<rparr>
   = (None,
      \<lparr>apiTools =
         [\<lparr>tool_id = ''id0'', tool_name = Some ''Search'', tool_description = [],
           tool_url = [[Text ''https://api.example.com/search'']], tool_httpMethod = ''get'',
           tool_queryParameters =
             [\<lparr>kv_id = ''id2'', kv_key = ''status'', kv_value = [[Text ''active'']]\<rparr>,
              \<lparr>kv_id = ''id3'', kv_key = ''user'',
                kv_value = [[Text [], VarRef (JsString ''id1''), Text '' '']]\<rparr>],
           tool_headers = [], tool_body = None\<rparr>],
       apiToolInputVariables =
         [\<lparr>var_id = ''id1'', var_name = ''userId'', var_apiToolID = ''id0'',
           var_description = JsString ''the user''\<rparr>],
       agentAPITools = [], agents = []\<rparr>) \<and>
   (\<exists>newVars tool links.
      addApiToolFromJson (\<lambda>n. ''id'' @ showNat n)
        (JObject (emptyPayload\<lparr>
           p_apiTool := Some (emptyTool\<lparr>ti_name := Some ''Search'',
             ti_url := UrlString ''https://api.example.com/search?status=active&user={userId}''\<rparr>),
           p_apiToolInputVariables := Some
             [\<lparr>vi_id = Some ''v1'', vi_name = Some ''userId'', vi_description = Some ''the user''\<rparr>]\<rparr>))
        \<lparr>apiTools = [], apiToolInputVariables = [], agentAPITools = [], agents = []\<rparr>
      = (None, \<lparr>apiTools = [] @ [tool], apiToolInputVariables = [] @ newVars,
                agentAPITools = [] @ links, agents = []\<rparr>) \<and>
      tool_url tool = [[Text (fixBraces ''https://api.example.com/search'')]] \<and>
      map kv_key (tool_queryParameters tool) = [''status'', ''user''])"
proof -
  let ?gen = "\<lambda>n. ''id'' @ showNat n"
  let ?p = "emptyPayload\<lparr>
      p_apiTool := Some (emptyTool\<lparr>ti_name := Some ''Search'',
        ti_url := UrlString ''https://api.example.com/search?status=active&user={userId}''\<rparr>),
      p_apiToolInputVariables := Some
        [\<lparr>vi_id = Some ''v1'', vi_name = Some ''userId'', vi_description = Some ''the user''\<rparr>]\<rparr>"
  let ?d = "\<lparr>apiTools = [], apiToolInputVariables = [], agentAPITools = [], agents = []\<rparr>"
  let ?base = "''https://api.example.com/search''"
  let ?kvs = "[(''status'', Other ''active''), (''user'', Single 1 ''userId'' 1)]"
  have h1: "ti_url (toolObjOf ?p) = UrlString (?base @ ''?'' @ queryText ?kvs)"
    by code_simp
  have h2: "\<not> list_ex isQuestion ?base"
    by code_simp
  have "wholeMatch ''active'' = None"
    by code_simp
  then have np: "\<not> isPlaceholderText ''active''"
    by (simp add: isPlaceholderText_iff)
  have h3: "list_all wellFormedPair ?kvs"
    using np by (simp add: wellFormedPair_def plainText_def isWhiteSpace_def isNameChar_def)
  have h4: "?gen n \<noteq> []" for n
    by simp
  have ev: "addApiToolFromJson ?gen (JObject ?p) ?d
   = (None,
      \<lparr>apiTools =
         [\<lparr>tool_id = ''id0'', tool_name = Some ''Search'', tool_description = [],
           tool_url = [[Text ''https://api.example.com/search'']], tool_httpMethod = ''get'',
           tool_queryParameters =
             [\<lparr>kv_id = ''id2'', kv_key = ''status'', kv_value = [[Text ''active'']]\<rparr>,
              \<lparr>kv_id = ''id3'', kv_key = ''user'',
                kv_value = [[Text [], VarRef (JsString ''id1''), Text '' '']]\<rparr>],
           tool_headers = [], tool_body = None\<rparr>],
       apiToolInputVariables =
         [\<lparr>var_id = ''id1'', var_name = ''userId'', var_apiToolID = ''id0'',
           var_description = JsString ''the user''\<rparr>],
       agentAPITools = [], agents = []\<rparr>)"
    by code_simp
  have h3a: "?kvs \<noteq> []"
    by simp
  from query_string_extraction [where gen = ?gen and vfData = ?d, OF disjI1 [OF h1] h2 h3a h3 h4]
  obtain newVars tool links where
    r: "addApiToolFromJson ?gen (JObject ?p) ?d
        = (None, ?d\<lparr>apiToolInputVariables := apiToolInputVariables ?d @ newVars,
                    apiTools := apiTools ?d @ [tool],
                    agentAPITools := agentAPITools ?d @ links\<rparr>)"
      "tool_url tool = [[Text (fixBraces ?base)]]"
      "map kv_key (tool_queryParameters tool) = map fst ?kvs"
    by blast
  from r have "\<exists>newVars tool links.
      addApiToolFromJson ?gen (JObject ?p) ?d
      = (None, \<lparr>apiTools = [] @ [tool], apiToolInputVariables = [] @ newVars,
                agentAPITools = [] @ links, agents = []\<rparr>) \<and>
      tool_url tool = [[Text (fixBraces ?base)]] \<and>
      map kv_key (tool_queryParameters tool) = [''status'', ''user'']"
    by (intro exI [of _ newVars] exI [of _ tool] exI [of _ links]) simp
  with h1 h2 h3 h4 ev show ?thesis by blast
qed

text \<open>
  C4. Query-string extraction from the URL. The claim asks that, whenever the
  concatenated text of the URL holds a \<^verbatim>\<open>?\<close>, the URL is cut at the first \<^verbatim>\<open>?\<close> and the
  resulting URL has no \<^verbatim>\<open>?\<close> remainder. The function finds the \<^verbatim>\<open>?\<close> in the concatenation
  of the text segments but then writes the text before it over the first segment only
  (\<^verbatim>\<open>toolObj.url[0].text[0] = urlStr\<close>). For the URL
  \<^verbatim>\<open>['https://api.example.com/users/', { variableID: 'v1' }, '/orders?status=active']\<close>
  the parameter \<^verbatim>\<open>status\<close> is extracted, the first segment becomes
  \<^verbatim>\<open>https://api.example.com/users//orders\<close> and the last segment keeps
  \<^verbatim>\<open>/orders?status=active\<close>.
\<close>

theorem query_string_left_in_url:
  "addApiToolFromJson (\<lambda>n. ''id'' @ showNat n)
     (JObject (emptyPayload\<lparr>
        p_apiTool := Some (emptyTool\<lparr>ti_name := Some ''Orders'',
          ti_url := UrlObjects
            [[Text ''https://api.example.com/users/'', VarRef (JsString ''v1''),
              Text ''/orders?status=active'']]\<rparr>),
        p_apiToolInputVariables := Some
          [\<lparr>vi_id = Some ''v1'', vi_name = Some ''userId'', vi_description = None\<rparr>]\<rparr>))
     \<lparr>apiTools = [], apiToolInputVariables = [], agentAPITools = [], agents = []\<rparr>
   = (None,
      \<lparr>apiTools =
        [\<lparr>tool_id = ''id0'', tool_name = Some ''Orders'', tool_description = [],
          tool_url =
            [[Text ''https://api.example.com/users//orders'', VarRef (JsString ''v1''),
              Text ''/orders?status=active'']],
          tool_httpMethod = ''get'',
          tool_queryParameters =
            [\<lparr>kv_id = ''id2'', kv_key = ''status'', kv_value = [[Text ''active'']]\<rparr>],
          tool_headers = [], tool_body = None\<rparr>],
      apiToolInputVariables =
        [\<lparr>var_id = ''id1'', var_name = ''userId'', var_apiToolID = ''id0'',
          var_description = JsString []\<rparr>],
      agentAPITools = [], agents = []\<rparr>)"
  by code_simp

subsection \<open>The body\<close>

text \<open>
  C5. Body gating. The claim asks for an absent body whenever the method is not post,
  put or patch. The generator path keeps the generator's body whatever the method: here
  a tool with method \<^verbatim>\<open>get\<close> keeps its body.
\<close>

theorem generator_keeps_body_for_get:
  "addApiToolFromJson (\<lambda>n. ''id'' @ showNat n)
     (JObject (emptyPayload\<lparr>p_apiTool := Some (emptyTool\<lparr>ti_name := Some ''Users'',
        ti_httpMethod := Some ''get'', ti_url := UrlString ''https://a.example/users'',
        ti_body := Some \<lparr>body_type = ''raw-input'', body_content = [Text ''{}''],
                         body_contentType = ''json''\<rparr>\<rparr>)\<rparr>))
     \<lparr>apiTools = [], apiToolInputVariables = [], agentAPITools = [], agents = [''agent1'']\<rparr>
   = (None,
      \<lparr>apiTools =
            [\<lparr>tool_id = ''id0'', tool_name = Some ''Users'', tool_description = [],
              tool_url = [[Text ''https://a.example/users'']], tool_httpMethod = ''get'',
              tool_queryParameters = [], tool_headers = [],
              tool_body = Some \<lparr>body_type = ''raw-input'', body_content = [Text ''{}''],
                                 body_contentType = ''json''\<rparr>\<rparr>],
          apiToolInputVariables = [],
          agentAPITools = [\<lparr>link_id = ''id1'', link_agentID = ''agent1'', link_apiToolID = ''id0''\<rparr>],
          agents = [''agent1'']\<rparr>)"
  by code_simp

lemma bodyTemplateOf_cases:
  "bodyTemplateOf a =
     (if ans_httpMethod a \<in> {Post, Put, Patch} \<and> ans_wantsBody a then ans_bodyInput a else [])"
proof -
  have "toLowerCase (methodString Get) = ''get''" "toLowerCase (methodString Post) = ''post''"
    "toLowerCase (methodString Put) = ''put''" "toLowerCase (methodString Delete) = ''delete''"
    "toLowerCase (methodString Patch) = ''patch''"
    by code_simp+
  then show ?thesis
    by (cases "ans_httpMethod a") (simp_all add: bodyTemplateOf_def)
qed

text \<open>
  On the operator path the body is gated: the tool has a body exactly when the method is
  post, put or patch, the operator asked for a body and the template is not blank; its
  type is then \<^verbatim>\<open>raw-input\<close>.
\<close>

theorem operator_body_gating:
  assumes "addApiTool gen varDesc selectedAgentId a data = Inr d"
  shows "\<exists>tool. apiTools d = apiTools data @ [tool] \<and>
           (tool_body tool \<noteq> None \<longleftrightarrow>
              ans_httpMethod a \<in> {Post, Put, Patch} \<and> ans_wantsBody a \<and>
              \<not> isBlank (ans_bodyInput a)) \<and>
           (case tool_body tool of None \<Rightarrow> True | Some b \<Rightarrow> body_type b = ''raw-input'')"
proof -
  from assms obtain n1 newVars ids tool n3 where
    asm: "assembleTool gen a n1 ids = (tool, n3)" and
    d: "apiTools d = apiTools data @ [tool]"
    by (rule addApiTool_Inr) simp
  from assembleTool_fields [OF asm]
  have b: "tool_body tool = buildBody ids (bodyTemplateOf a)" by simp
  have blank: "isBlank []" by (simp add: isBlank_def)
  show ?thesis
    using d blank by (auto simp: b buildBody_def bodyTemplateOf_cases)
qed

subsection \<open>One variable per name\<close>

text \<open>
  C6. Per-tool variable-name uniqueness. The claim asks that every reference to a name
  carries the identifier of the one variable created for that name. For the name
  \<^verbatim>\<open>__proto__\<close> the assignment \<^verbatim>\<open>variableIDs[varName] = varID\<close> stores nothing, and both
  references in the URL below carry what \<^verbatim>\<open>variableIDs['__proto__']\<close> reads, the prototype
  object, instead of the identifier \<^verbatim>\<open>id1\<close> of the variable created.
\<close>

theorem proto_reference_without_id:
  "addApiTool (\<lambda>n. ''id'' @ showNat n) (\<lambda>n. []) ''agent1''
     \<lparr>ans_name = ''Proto'', ans_description = [],
      ans_url = ''https://a.example/{__proto__}/{__proto__}'',
      ans_httpMethod = Get, ans_queryParamsInput = [], ans_headersInput = [],
      ans_wantsBody = False, ans_bodyInput = []\<rparr>
     \<lparr>apiTools = [], apiToolInputVariables = [], agentAPITools = [], agents = []\<rparr>
   = Inr
      \<lparr>apiTools =
        [\<lparr>tool_id = ''id0'', tool_name = Some ''Proto'', tool_description = [],
          tool_url = [[Text ''https://a.example/'', VarRef (JsInherited ''__proto__''),
                       Text ''/'', VarRef (JsInherited ''__proto__'')]],
          tool_httpMethod = ''get'', tool_queryParameters = [], tool_headers = [],
          tool_body = None\<rparr>],
      apiToolInputVariables =
        [\<lparr>var_id = ''id1'', var_name = ''__proto__'', var_apiToolID = ''id0'',
          var_description = JsInherited ''__proto__''\<rparr>],
      agentAPITools = [\<lparr>link_id = ''id2'', link_agentID = ''agent1'', link_apiToolID = ''id0''\<rparr>],
      agents = []\<rparr>"
  by code_simp

lemma setAdd_distinct: "distinct xs \<Longrightarrow> distinct (setAdd xs x)"
  by (simp add: setAdd_def)

lemma foldl_setAdd_distinct: "distinct xs \<Longrightarrow> distinct (foldl setAdd xs ys)"
  by (induction ys arbitrary: xs) (simp_all add: setAdd_distinct)

lemma addMatches_distinct: "distinct vars \<Longrightarrow> distinct (addMatches vars s)"
  by (simp add: addMatches_def foldl_setAdd_distinct)

lemma foldl_addMatches_distinct:
  "distinct vars \<Longrightarrow> distinct (foldl (\<lambda>vars qp. addMatches vars (snd qp)) vars qps)"
  by (induction qps arbitrary: vars) (simp_all add: addMatches_distinct)

lemma foldl_addMatches_set:
  "set (foldl (\<lambda>vars qp. addMatches vars (snd qp)) vars qps) =
     set vars \<union> (\<Union>qp\<in>set qps. set (matchedNames (snd qp)))"
  by (induction qps arbitrary: vars) auto

lemma allVarNamesOf_distinct: "distinct (allVarNamesOf url qps bodyTemplate)"
  by (simp add: allVarNamesOf_def Let_def addMatches_distinct foldl_addMatches_distinct)

lemma allVarNamesOf_set:
  "set (allVarNamesOf url qps bodyTemplate) =
     set (matchedNames url) \<union> (\<Union>qp\<in>set qps. set (matchedNames (snd qp))) \<union>
     (if isBlank bodyTemplate then {} else set (matchedNames bodyTemplate))"
  by (simp add: allVarNamesOf_def Let_def foldl_addMatches_set)

lemma jsSet_other: "k \<noteq> nm \<Longrightarrow> map_of (jsSet nm v ids) k = map_of ids k"
  by (simp add: jsSet_def)

lemma jsSet_proto: "map_of (jsSet nm v ids) ''__proto__'' = map_of ids ''__proto__''"
  by (simp add: jsSet_def)

lemma jsSet_same: "nm \<noteq> ''__proto__'' \<Longrightarrow> map_of (jsSet nm v ids) nm = Some v"
  by (simp add: jsSet_def)

lemma createVariables_result:
  assumes "distinct ns" "\<forall>nm \<in> set ns. map_of ids nm = None"
  shows "\<exists>vars' ids'.
           createVariables gen tid descs ns (n, vars, ids) = (n + length ns, vars @ vars', ids') \<and>
           map var_name vars' = ns \<and>
           (\<forall>v \<in> set vars'. var_name v \<noteq> ''__proto__'' \<longrightarrow>
              map_of ids' (var_name v) = Some (var_id v)) \<and>
           map_of ids' ''__proto__'' = map_of ids ''__proto__'' \<and>
           (\<forall>k. k \<notin> set ns \<longrightarrow> map_of ids' k = map_of ids k)"
  using assms
proof (induction ns arbitrary: n vars ids)
  case Nil
  show ?case by simp
next
  case (Cons nm ns)
  define v where
    "v = \<lparr>var_id = gen n, var_name = nm, var_apiToolID = tid,
          var_description = orEmpty (jsGet descs nm)\<rparr>"
  let ?ids = "jsSet nm (gen n) ids"
  from Cons.prems have own: "\<not> hasOwnProperty ids nm"
    by (simp add: hasOwnProperty_def)
  from Cons.prems have d: "distinct ns" and notin: "nm \<notin> set ns" by simp_all
  have none: "\<forall>k \<in> set ns. map_of ?ids k = None"
  proof
    fix k
    assume k: "k \<in> set ns"
    with notin have "k \<noteq> nm" by auto
    then show "map_of ?ids k = None"
      using Cons.prems k by (simp add: jsSet_other)
  qed
  from Cons.IH [OF d none, of "Suc n" "vars @ [v]"]
  obtain vars' ids' where
    r: "createVariables gen tid descs ns (Suc n, vars @ [v], ?ids)
          = (Suc n + length ns, (vars @ [v]) @ vars', ids')"
    and names: "map var_name vars' = ns"
    and known: "\<forall>v \<in> set vars'. var_name v \<noteq> ''__proto__'' \<longrightarrow>
                  map_of ids' (var_name v) = Some (var_id v)"
    and proto: "map_of ids' ''__proto__'' = map_of ?ids ''__proto__''"
    and other: "\<forall>k. k \<notin> set ns \<longrightarrow> map_of ids' k = map_of ?ids k"
    by blast
  have step: "createVariables gen tid descs (nm # ns) (n, vars, ids)
                = (n + length (nm # ns), vars @ (v # vars'), ids')"
    using own r by (simp add: v_def)
  have vn: "var_name v = nm" "var_id v = gen n" by (simp_all add: v_def)
  have "var_name v \<noteq> ''__proto__'' \<longrightarrow> map_of ids' (var_name v) = Some (var_id v)"
    using other notin by (simp add: vn jsSet_same)
  moreover have "map_of ids' ''__proto__'' = map_of ids ''__proto__''"
    using proto by (simp add: jsSet_proto)
  moreover have "\<forall>k. k \<notin> set (nm # ns) \<longrightarrow> map_of ids' k = map_of ids k"
    using other by (simp add: jsSet_other)
  moreover have "map var_name (v # vars') = nm # ns"
    using names vn by simp
  ultimately show ?case
    using step known by (intro exI [of _ "v # vars'"] exI [of _ ids']) simp
qed

lemma tokenize_cong:
  "(\<And>nm. nm \<in> set (matchedNames s) \<Longrightarrow> lk nm = lk' nm) \<Longrightarrow> tokenize lk s = tokenize lk' s"
proof (induction "length s" arbitrary: s rule: less_induct)
  case less
  show ?case
  proof (cases "varRegex_exec s")
    case None
    then show ?thesis by (simp add: tokenize.simps [of _ s])
  next
    case (Some x)
    obtain p nm r where x: "x = (p, nm, r)" by (cases x) auto
    from Some x have m: "matchedNames s = nm # matchedNames r"
      by (simp add: matchedNames.simps [of s])
    from Some x have "length r < length s" by (auto dest: varRegex_exec_shorter)
    then have "tokenize lk r = tokenize lk' r"
      using less.prems m by (intro less.hyps) simp_all
    moreover have "lk nm = lk' nm" using less.prems m by simp
    ultimately show ?thesis
      using Some x by (simp add: tokenize.simps [of _ s])
  qed
qed

lemma buildQueryParameters_values:
  "map kv_value (fst (buildQueryParameters gen ids n qps)) =
     map (\<lambda>qp. [tokenize (jsGet ids) (snd qp)]) (filter (\<lambda>qp. fst qp \<noteq> []) qps)"
proof (induction qps arbitrary: n)
  case Nil
  show ?case by simp
next
  case (Cons qp qps)
  show ?case
  proof (cases "fst qp = []")
    case True
    with Cons [of n] show ?thesis by simp
  next
    case False
    obtain qs n' where r: "buildQueryParameters gen ids (Suc n) qps = (qs, n')"
      by (cases "buildQueryParameters gen ids (Suc n) qps") auto
    with Cons [of "Suc n"] False show ?thesis by simp
  qed
qed

lemma queryParamPairsOf_keys:
  "filter (\<lambda>qp. fst qp \<noteq> []) (queryParamPairsOf inp) = queryParamPairsOf inp"
  by (simp add: queryParamPairsOf_def)


lemma find_name_id:
  assumes "v \<in> set vars" "var_name v = nm"
    and "\<forall>v \<in> set vars. var_name v \<noteq> ''__proto__'' \<longrightarrow> map_of ids (var_name v) = Some (var_id v)"
    and "nm \<noteq> ''__proto__''"
  shows "idOfName vars nm = var_id v"
proof -
  from assms(1,2) obtain w where w: "find (\<lambda>v. var_name v = nm) vars = Some w"
    by (cases "find (\<lambda>v. var_name v = nm) vars") (auto simp: find_None_iff)
  then have "w \<in> set vars" "var_name w = nm" by (auto dest: find_SomeD)
  with assms have "map_of ids nm = Some (var_id w)" "map_of ids nm = Some (var_id v)"
    by auto
  then have "var_id w = var_id v" by simp
  with w show ?thesis by (simp add: idOfName_def)
qed

text \<open>
  For every name but \<^verbatim>\<open>__proto__\<close> the operator path does create one variable per name
  and lets every reference carry its identifier: the new variables have pairwise
  different names, which are exactly the names found in the URL, the query parameter
  values and the body template, and the URL, each parameter value and the body are the
  tokenization in which a placeholder stands for the identifier of the variable of its
  name.
\<close>

theorem one_variable_per_name:
  assumes "addApiTool gen varDesc selectedAgentId a data = Inr d"
  shows "\<exists>newVars tool.
           apiToolInputVariables d = apiToolInputVariables data @ newVars \<and>
           apiTools d = apiTools data @ [tool] \<and>
           distinct (map var_name newVars) \<and>
           set (map var_name newVars) =
             set (matchedNames (ans_url a)) \<union>
             (\<Union>qp\<in>set (queryParamPairsOf (ans_queryParamsInput a)). set (matchedNames (snd qp))) \<union>
             (if isBlank (bodyTemplateOf a) then {} else set (matchedNames (bodyTemplateOf a))) \<and>
           tool_url tool = [tokenize (referenceTo newVars) (ans_url a)] \<and>
           map kv_value (tool_queryParameters tool) =
             map (\<lambda>qp. [tokenize (referenceTo newVars) (snd qp)])
               (queryParamPairsOf (ans_queryParamsInput a)) \<and>
           tool_body tool =
             (if isBlank (bodyTemplateOf a) then None
              else Some \<lparr>body_type = ''raw-input'',
                         body_content =
                           filter keepsBodyPart (tokenize (referenceTo newVars) (bodyTemplateOf a)),
                         body_contentType = ''json''\<rparr>)"
proof -
  let ?qps = "queryParamPairsOf (ans_queryParamsInput a)"
  let ?bt = "bodyTemplateOf a"
  let ?names = "allVarNamesOf (ans_url a) ?qps ?bt"
  from assms obtain n1 newVars ids tool n3 where
    reg: "variableRegistry gen varDesc a = (n1, newVars, ids)" and
    asm: "assembleTool gen a n1 ids = (tool, n3)" and
    d: "apiToolInputVariables d = apiToolInputVariables data @ newVars"
       "apiTools d = apiTools data @ [tool]"
    by (rule addApiTool_Inr) simp
  have "\<exists>vars' ids'.
          createVariables gen (gen 0) (variableDescriptionsOf varDesc ?names) ?names (1, [], [])
            = (1 + length ?names, [] @ vars', ids') \<and>
          map var_name vars' = ?names \<and>
          (\<forall>v \<in> set vars'. var_name v \<noteq> ''__proto__'' \<longrightarrow>
             map_of ids' (var_name v) = Some (var_id v)) \<and>
          map_of ids' ''__proto__'' = map_of [] ''__proto__'' \<and>
          (\<forall>k. k \<notin> set ?names \<longrightarrow> map_of ids' k = map_of [] k)"
    by (rule createVariables_result) (simp_all add: allVarNamesOf_distinct)
  with reg have names: "map var_name newVars = ?names"
    and known: "\<forall>v \<in> set newVars. var_name v \<noteq> ''__proto__'' \<longrightarrow>
                  map_of ids (var_name v) = Some (var_id v)"
    and proto: "map_of ids ''__proto__'' = None"
    by (auto simp: variableRegistry_def Let_def)
  have lk: "jsGet ids nm = referenceTo newVars nm" if "nm \<in> set ?names" for nm
  proof (cases "nm = ''__proto__''")
    case True
    with proto show ?thesis
      by (simp add: jsGet_def referenceTo_def objectPrototypeKeys_def)
  next
    case False
    from that names obtain v where v: "v \<in> set newVars" "var_name v = nm"
      by (metis (no_types, lifting) imageE list.set_map)
    with known False have "map_of ids nm = Some (var_id v)" by auto
    moreover have "idOfName newVars nm = var_id v"
      using v known False by (rule find_name_id)
    ultimately show ?thesis
      using False by (simp add: jsGet_def referenceTo_def)
  qed
  have tk: "tokenize (jsGet ids) s = tokenize (referenceTo newVars) s"
    if "set (matchedNames s) \<subseteq> set ?names" for s
    using that by (intro tokenize_cong lk) auto
  have u: "set (matchedNames (ans_url a)) \<subseteq> set ?names"
    by (auto simp: allVarNamesOf_set)
  have q: "set (matchedNames (snd qp)) \<subseteq> set ?names" if "qp \<in> set ?qps" for qp
    using that by (auto simp: allVarNamesOf_set)
  have b: "set (matchedNames ?bt) \<subseteq> set ?names" if "\<not> isBlank ?bt"
    using that by (auto simp: allVarNamesOf_set)
  from assembleTool_fields [OF asm]
  have f: "tool_url tool = [tokenize (jsGet ids) (ans_url a)]"
    "tool_queryParameters tool = fst (buildQueryParameters gen ids n1 ?qps)"
    "tool_body tool = buildBody ids ?bt"
    by simp_all
  have 1: "tool_url tool = [tokenize (referenceTo newVars) (ans_url a)]"
    by (simp add: f(1) tk [OF u])
  have 2: "map kv_value (tool_queryParameters tool) =
             map (\<lambda>qp. [tokenize (referenceTo newVars) (snd qp)]) ?qps"
    using q by (simp add: f(2) buildQueryParameters_values queryParamPairsOf_keys tk)
  have 3: "tool_body tool =
             (if isBlank ?bt then None
              else Some \<lparr>body_type = ''raw-input'',
                         body_content = filter keepsBodyPart (tokenize (referenceTo newVars) ?bt),
                         body_contentType = ''json''\<rparr>)"
    using b by (simp add: f(3) buildBody_def tk)
  have 4: "distinct (map var_name newVars)"
    by (simp add: names allVarNamesOf_distinct)
  have 5: "set (map var_name newVars) =
             set (matchedNames (ans_url a)) \<union>
             (\<Union>qp\<in>set ?qps. set (matchedNames (snd qp))) \<union>
             (if isBlank ?bt then {} else set (matchedNames ?bt))"
    unfolding names by (rule allVarNamesOf_set)
  from d 1 2 3 4 5 show ?thesis by blast
qed

subsection \<open>The HTTP method\<close>








subsection \<open>The link to the agent\<close>

text \<open>
  C8, as amended. A successful operator-path operation appends exactly one link, to the
  agent selected. A generator-path operation that does not throw appends exactly one
  link, to the first agent of the document, when that agent has a non-empty id, and no
  link otherwise.
\<close>

theorem link_creation:
  "(addApiTool gen varDesc selectedAgentId a data = Inr d \<longrightarrow>
      (\<exists>l. agentAPITools d = agentAPITools data @ [l] \<and> link_agentID l = selectedAgentId)) \<and>
   (addApiToolFromJson gen aiJson vfData = (None, d') \<longrightarrow>
      (case agents vfData of
         [] \<Rightarrow> agentAPITools d' = agentAPITools vfData
       | agentID # rest \<Rightarrow>
           if agentID = [] then agentAPITools d' = agentAPITools vfData
           else (\<exists>l. agentAPITools d' = agentAPITools vfData @ [l] \<and> link_agentID l = agentID)))"
proof (intro conjI impI)
  assume "addApiTool gen varDesc selectedAgentId a data = Inr d"
  then show "\<exists>l. agentAPITools d = agentAPITools data @ [l] \<and> link_agentID l = selectedAgentId"
    by (rule addApiTool_Inr) simp
next
  assume "addApiToolFromJson gen aiJson vfData = (None, d')"
  then show "case agents vfData of
         [] \<Rightarrow> agentAPITools d' = agentAPITools vfData
       | agentID # rest \<Rightarrow>
           if agentID = [] then agentAPITools d' = agentAPITools vfData
           else (\<exists>l. agentAPITools d' = agentAPITools vfData @ [l] \<and> link_agentID l = agentID)"
    by (rule addApiToolFromJson_None) (simp add: agentLinks_def split: list.splits)
qed

theorem link_creation_witness:
  "addApiTool (\<lambda>n. ''id'' @ showNat n) (\<lambda>n. []) ''agent1''
     \<lparr>ans_name = ''Users'', ans_description = [], ans_url = ''https://a.example/users'',
      ans_httpMethod = Get, ans_queryParamsInput = [], ans_headersInput = [],
      ans_wantsBody = False, ans_bodyInput = []\<rparr>
     \<lparr>apiTools = [], apiToolInputVariables = [], agentAPITools = [], agents = [''agent1'']\<rparr>
   = Inr \<lparr>apiTools =
            [\<lparr>tool_id = ''id0'', tool_name = Some ''Users'', tool_description = [],
              tool_url = [[Text ''https://a.example/users'']], tool_httpMethod = ''get'',
              tool_queryParameters = [], tool_headers = [], tool_body = None\<rparr>],
          apiToolInputVariables = [],
          agentAPITools = [\<lparr>link_id = ''id1'', link_agentID = ''agent1'', link_apiToolID = ''id0''\<rparr>],
          agents = [''agent1'']\<rparr> \<and>
   addApiToolFromJson (\<lambda>n. ''id'' @ showNat n)
     (JObject (emptyPayload\<lparr>p_apiTool := Some (emptyTool\<lparr>ti_name := Some ''Users'',
        ti_url := UrlString ''https://a.example/users''\<rparr>)\<rparr>))
     \<lparr>apiTools = [], apiToolInputVariables = [], agentAPITools = [], agents = [''agent1'']\<rparr>
   = (None,
      \<lparr>apiTools =
            [\<lparr>tool_id = ''id0'', tool_name = Some ''Users'', tool_description = [],
              tool_url = [[Text ''https://a.example/users'']], tool_httpMethod = ''get'',
              tool_queryParameters = [], tool_headers = [], tool_body = None\<rparr>],
          apiToolInputVariables = [],
          agentAPITools = [\<lparr>link_id = ''id1'', link_agentID = ''agent1'', link_apiToolID = ''id0''\<rparr>],
          agents = [''agent1'']\<rparr>) \<and>
   (\<exists>l. [\<lparr>link_id = ''id1'', link_agentID = ''agent1'', link_apiToolID = ''id0''\<rparr>] = [] @ [l] \<and>
        link_agentID l = ''agent1'')"
proof -
  let ?gen = "\<lambda>n. ''id'' @ showNat n"
  let ?a = "\<lparr>ans_name = ''Users'', ans_description = [], ans_url = ''https://a.example/users'',
      ans_httpMethod = Get, ans_queryParamsInput = [], ans_headersInput = [],
      ans_wantsBody = False, ans_bodyInput = []\<rparr>"
  let ?d = "\<lparr>apiTools = [], apiToolInputVariables = [], agentAPITools = [], agents = [''agent1'']\<rparr>"
  let ?r = "\<lparr>apiTools =
            [\<lparr>tool_id = ''id0'', tool_name = Some ''Users'', tool_description = [],
              tool_url = [[Text ''https://a.example/users'']], tool_httpMethod = ''get'',
              tool_queryParameters = [], tool_headers = [], tool_body = None\<rparr>],
          apiToolInputVariables = [],
          agentAPITools = [\<lparr>link_id = ''id1'', link_agentID = ''agent1'', link_apiToolID = ''id0''\<rparr>],
          agents = [''agent1'']\<rparr>"
  let ?j = "JObject (emptyPayload\<lparr>p_apiTool := Some (emptyTool\<lparr>ti_name := Some ''Users'',
        ti_url := UrlString ''https://a.example/users''\<rparr>)\<rparr>)"
  have e1: "addApiTool ?gen (\<lambda>n. []) ''agent1'' ?a ?d = Inr ?r"
    by code_simp
  have e2: "addApiToolFromJson ?gen ?j ?d = (None, ?r)"
    by code_simp
  from link_creation [of ?gen "\<lambda>n. []" "''agent1''" ?a ?d ?r ?j ?d ?r] e1 e2
  show ?thesis by simp
qed

text \<open>
  C8, as claimed, fails: on a document without agents the generator path adds the tool
  and no link.
\<close>

theorem link_creation_counterexample:
  "fst (addApiToolFromJson (\<lambda>n. ''id'' @ showNat n)
     (JObject (emptyPayload\<lparr>p_apiTool := Some (emptyTool\<lparr>ti_name := Some ''Users'',
        ti_url := UrlString ''https://a.example/users''\<rparr>)\<rparr>))
     \<lparr>apiTools = [], apiToolInputVariables = [], agentAPITools = [], agents = []\<rparr>) = None \<and>
   length (apiTools (snd (addApiToolFromJson (\<lambda>n. ''id'' @ showNat n)
     (JObject (emptyPayload\<lparr>p_apiTool := Some (emptyTool\<lparr>ti_name := Some ''Users'',
        ti_url := UrlString ''https://a.example/users''\<rparr>)\<rparr>))
     \<lparr>apiTools = [], apiToolInputVariables = [], agentAPITools = [], agents = []\<rparr>))) = 1 \<and>
   agentAPITools (snd (addApiToolFromJson (\<lambda>n. ''id'' @ showNat n)
     (JObject (emptyPayload\<lparr>p_apiTool := Some (emptyTool\<lparr>ti_name := Some ''Users'',
        ti_url := UrlString ''https://a.example/users''\<rparr>)\<rparr>))
     \<lparr>apiTools = [], apiToolInputVariables = [], agentAPITools = [], agents = []\<rparr>)) = []"
  by code_simp

subsection \<open>Malformed generator output\<close>

text \<open>
  The inputs that the entry check does reject: \<^verbatim>\<open>null\<close>, \<^verbatim>\<open>undefined\<close> and every value
  whose \<^verbatim>\<open>typeof\<close> is not \<^verbatim>\<open>object\<close>. For these \<^verbatim>\<open>addApiToolFromJson\<close> throws
  "Invalid AI tool JSON" and leaves the document as it was.
\<close>

theorem invalid_json_rejected:
  "aiJson = JNull \<or> typeof aiJson \<noteq> ''object'' \<Longrightarrow>
   addApiToolFromJson gen aiJson vfData = (Some InvalidAIToolJSON, vfData)"
  by (cases aiJson) (auto simp: addApiToolFromJson_def)

theorem invalid_json_rejected_example:
  "typeof (JString ''no tool here'') \<noteq> ''object'' \<and>
   addApiToolFromJson (\<lambda>n. ''id'' @ showNat n) (JString ''no tool here'')
     \<lparr>apiTools = [], apiToolInputVariables = [], agentAPITools = [], agents = [''agent1'']\<rparr>
   = (Some InvalidAIToolJSON,
      \<lparr>apiTools = [], apiToolInputVariables = [], agentAPITools = [], agents = [''agent1'']\<rparr>)"
proof -
  have h: "typeof (JString ''no tool here'') \<noteq> ''object''" by simp
  then have "JString ''no tool here'' = JNull \<or> typeof (JString ''no tool here'') \<noteq> ''object''"
    by (rule disjI2)
  from invalid_json_rejected [OF this] h show ?thesis by simp
qed

text \<open>
  C9. Malformed generator output. The claim asks that every input that is null or not an
  object is rejected and the document left unchanged. The entry check is
  \<^verbatim>\<open>!aiJson || typeof aiJson !== 'object'\<close>, and the \<^verbatim>\<open>typeof\<close> of an array is \<^verbatim>\<open>object\<close>: a
  top-level array is not rejected. It has none of the fields of a tool, so a tool without
  a name, with the empty URL and the method \<^verbatim>\<open>get\<close>, is added to the document, and a link
  to the first agent with it.
\<close>

theorem array_not_rejected:
  "addApiToolFromJson (\<lambda>n. ''id'' @ showNat n) JArray
     \<lparr>apiTools = [], apiToolInputVariables = [], agentAPITools = [], agents = [''agent1'']\<rparr>
   = (None,
      \<lparr>apiTools =
        [\<lparr>tool_id = ''id0'', tool_name = None, tool_description = [],
          tool_url = [[Text []]], tool_httpMethod = ''get'',
          tool_queryParameters = [], tool_headers = [], tool_body = None\<rparr>],
      apiToolInputVariables = [],
      agentAPITools = [\<lparr>link_id = ''id1'', link_agentID = ''agent1'', link_apiToolID = ''id0''\<rparr>],
      agents = [''agent1'']\<rparr>)"
  by code_simp

subsection \<open>Header values\<close>

text \<open>
  C10. Header values are never tokenized in the operator path: the value of the header
  made from each entry of \<^verbatim>\<open>headersInput\<close> is the one-element list holding the entry's
  raw value text, and the variables, the URL, the query parameters and the body of the
  tool are the same whatever \<^verbatim>\<open>headersInput\<close> is.
\<close>

theorem header_values_literal:
  assumes "addApiTool gen varDesc selectedAgentId a data = Inr d"
  shows "(\<exists>tool. apiTools d = apiTools data @ [tool] \<and>
            map kv_value (tool_headers tool) =
              (if isBlank (ans_headersInput a) then []
               else map (\<lambda>h. [[Text (rawHeaderValue h)]]) (split CHR '','' (ans_headersInput a)))) \<and>
         (\<exists>d'. addApiTool gen varDesc selectedAgentId (a\<lparr>ans_headersInput := h'\<rparr>) data = Inr d' \<and>
            apiToolInputVariables d' = apiToolInputVariables d \<and>
            map tool_url (apiTools d') = map tool_url (apiTools d) \<and>
            map tool_queryParameters (apiTools d') = map tool_queryParameters (apiTools d) \<and>
            map tool_body (apiTools d') = map tool_body (apiTools d))"
proof -
  from assms obtain n1 newVars ids tool n3 where
    reg: "variableRegistry gen varDesc a = (n1, newVars, ids)" and
    asm: "assembleTool gen a n1 ids = (tool, n3)" and
    d: "d = data\<lparr>apiToolInputVariables := apiToolInputVariables data @ newVars,
              apiTools := apiTools data @ [tool],
              agentAPITools := agentAPITools data @
                [\<lparr>link_id = gen n3, link_agentID = selectedAgentId, link_apiToolID = gen 0\<rparr>]\<rparr>" and
    nodup: "\<not> list_ex (isDuplicate (ans_name a) (replaceVars (ans_url a))) (apiTools data)"
    by (rule addApiTool_Inr)
  let ?a' = "a\<lparr>ans_headersInput := h'\<rparr>"
  obtain tool' n3' where asm': "assembleTool gen ?a' n1 ids = (tool', n3')"
    by (cases "assembleTool gen ?a' n1 ids") auto
  have bt: "bodyTemplateOf ?a' = bodyTemplateOf a"
    by (simp add: bodyTemplateOf_def)
  from assembleTool_fields [OF asm] assembleTool_fields [OF asm']
  have same: "tool_url tool' = tool_url tool"
    "tool_queryParameters tool' = tool_queryParameters tool"
    "tool_body tool' = tool_body tool"
    by (simp_all add: bt)
  have first: "\<exists>tool. apiTools d = apiTools data @ [tool] \<and>
            map kv_value (tool_headers tool) =
              (if isBlank (ans_headersInput a) then []
               else map (\<lambda>h. [[Text (rawHeaderValue h)]]) (split CHR '','' (ans_headersInput a)))"
    using assembleTool_fields [OF asm] by (simp add: d)
  have "addApiTool gen varDesc selectedAgentId ?a' data =
          Inr (data\<lparr>apiToolInputVariables := apiToolInputVariables data @ newVars,
              apiTools := apiTools data @ [tool'],
              agentAPITools := agentAPITools data @
                [\<lparr>link_id = gen n3', link_agentID = selectedAgentId, link_apiToolID = gen 0\<rparr>]\<rparr>)"
    using nodup by (simp add: addApiTool_def reg asm')
  then have second: "\<exists>d'. addApiTool gen varDesc selectedAgentId ?a' data = Inr d' \<and>
            apiToolInputVariables d' = apiToolInputVariables d \<and>
            map tool_url (apiTools d') = map tool_url (apiTools d) \<and>
            map tool_queryParameters (apiTools d') = map tool_queryParameters (apiTools d) \<and>
            map tool_body (apiTools d') = map tool_body (apiTools d)"
    by (simp add: d same)
  from first second show ?thesis by (rule conjI)
qed

theorem header_values_literal_witness:
  "\<exists>d. addApiTool (\<lambda>n. ''id'' @ showNat n) (\<lambda>n. []) ''agent1''
     \<lparr>ans_name = ''Users'', ans_description = [], ans_url = ''https://a.example/users/{id}'',
      ans_httpMethod = Get, ans_queryParamsInput = [],
      ans_headersInput = ''Authorization: Bearer {token},X-Trace:{{id}}'',
      ans_wantsBody = False, ans_bodyInput = []\<rparr>
     \<lparr>apiTools = [], apiToolInputVariables = [], agentAPITools = [], agents = [''agent1'']\<rparr>
       = Inr d \<and>
     (\<exists>tool. apiTools d = [tool] \<and>
        map kv_value (tool_headers tool) = [[[Text ''Bearer {token}'']], [[Text ''{{id}}'']]]) \<and>
     map var_name (apiToolInputVariables d) = [''id'']"
proof -
  let ?gen = "\<lambda>n. ''id'' @ showNat n"
  let ?a = "\<lparr>ans_name = ''Users'', ans_description = [], ans_url = ''https://a.example/users/{id}'',
      ans_httpMethod = Get, ans_queryParamsInput = [],
      ans_headersInput = ''Authorization: Bearer {token},X-Trace:{{id}}'',
      ans_wantsBody = False, ans_bodyInput = []\<rparr>"
  let ?d = "\<lparr>apiTools = [], apiToolInputVariables = [], agentAPITools = [], agents = [''agent1'']\<rparr>"
  have ok: "\<not> isl (addApiTool ?gen (\<lambda>n. []) ''agent1'' ?a ?d)"
    by code_simp
  then obtain d where e: "addApiTool ?gen (\<lambda>n. []) ''agent1'' ?a ?d = Inr d"
    by (cases "addApiTool ?gen (\<lambda>n. []) ''agent1'' ?a ?d") auto
  have names: "map var_name (apiToolInputVariables (projr (addApiTool ?gen (\<lambda>n. []) ''agent1'' ?a ?d))) = [''id'']"
    by code_simp
  have blank: "\<not> isBlank ''Authorization: Bearer {token},X-Trace:{{id}}''"
    by code_simp
  have vals: "map (\<lambda>h. [[Text (rawHeaderValue h)]]) (split CHR '','' ''Authorization: Bearer {token},X-Trace:{{id}}'')
      = [[[Text ''Bearer {token}'']], [[Text ''{{id}}'']]]"
    by code_simp
  from header_values_literal [OF e, of "[]"] names blank vals e
  show ?thesis by simp
qed

end
